theory Spec2Isabelle
  imports Main "HOL-Library.Sublist"
begin

chapter \<open>Ocean Air ticket back office: derived-state rules\<close>

text \<open>
  A shallow embedding of the derivation rules of the ticket back office: date parsing
  (utils), fee-row detection and unpaid grouping (ui, manage), the settlement balance
  (reports, settlement), and the booking mutations (booking, manage).

  Conventions of the embedding.
  \<^item> A JavaScript string is a \<open>string\<close>; case mapping covers the ASCII letters, which is
    all the patterns of the program mention. A missing (\<open>undefined\<close>) field and the empty
    string are both \<open>''''\<close>: the program reads every field through \<open>x || ''\<close> or a
    truthiness test, which cannot tell them apart.
  \<^item> Amounts are whole numbers (\<open>int\<close>); on whole amounts within the exactly
    representable range JavaScript's \<open>+\<close> is integer addition.
  \<^item> A \<open>Date\<close> is its time value, an \<open>int\<close> of milliseconds since the epoch, or
    \<open>None\<close> for an invalid date.  Local time is UTC plus a fixed offset \<open>tz\<close> in
    milliseconds.
\<close>

section \<open>Definitions\<close>

subsection \<open>String primitives\<close>

definition toLowerChar :: "char \<Rightarrow> char" where
  "toLowerChar c =
     (case map_of (zip ''ABCDEFGHIJKLMNOPQRSTUVWXYZ'' ''abcdefghijklmnopqrstuvwxyz'') c of
        Some l \<Rightarrow> l
      | None \<Rightarrow> c)"

definition toUpperChar :: "char \<Rightarrow> char" where
  "toUpperChar c =
     (case map_of (zip ''abcdefghijklmnopqrstuvwxyz'' ''ABCDEFGHIJKLMNOPQRSTUVWXYZ'') c of
        Some u \<Rightarrow> u
      | None \<Rightarrow> c)"

definition toLowerCase :: "string \<Rightarrow> string" where
  "toLowerCase s = map toLowerChar s"

definition toUpperCase :: "string \<Rightarrow> string" where
  "toUpperCase s = map toUpperChar s"

text \<open>\<open>s.includes(sub)\<close>: \<open>sub\<close> occurs somewhere in \<open>s\<close>.\<close>

fun str_includes :: "string \<Rightarrow> string \<Rightarrow> bool" where
  "str_includes [] sub = (sub = [])"
| "str_includes (c # cs) sub = (prefix sub (c # cs) \<or> str_includes cs sub)"

text \<open>The class \<open>\s\<close> of a regular expression, which is also what \<open>trim\<close> removes.\<close>

definition isSpace :: "char \<Rightarrow> bool" where
  "isSpace c = (c \<in> set [CHR 0x20, CHR 0x09, CHR 0x0A, CHR 0x0B, CHR 0x0C, CHR 0x0D, CHR 0xA0])"

definition trim :: "string \<Rightarrow> string" where
  "trim s = rev (dropWhile isSpace (rev (dropWhile isSpace s)))"

definition isDigit :: "char \<Rightarrow> bool" where
  "isDigit c = (c \<in> set ''0123456789'')"

subsection \<open>Calendar arithmetic of the language's \<open>Date\<close>\<close>

text \<open>
  Day numbers count from 1 January 1970.  \<open>DayFromYear\<close>, \<open>DaysInYear\<close>, the month
  table and \<open>MakeDay\<close> are the language standard's; \<open>YearFromDay\<close> computes the
  standard's ``largest year that starts on or before the day'' from an estimate that is
  off by at most one (lemma \<open>YearFromDay_spec\<close> below).
\<close>

definition msPerDay :: int where
  "msPerDay = 86400000"

definition DayFromYear :: "int \<Rightarrow> int" where
  "DayFromYear y =
     365 * (y - 1970) + (y - 1969) div 4 - (y - 1901) div 100 + (y - 1601) div 400"

definition DaysInYear :: "int \<Rightarrow> int" where
  "DaysInYear y =
     (if y mod 4 \<noteq> 0 then 365 else if y mod 100 \<noteq> 0 then 366
      else if y mod 400 \<noteq> 0 then 365 else 366)"

definition YearFromDay :: "int \<Rightarrow> int" where
  "YearFromDay d =
     (let y0 = 1970 + (400 * d) div 146097
      in if d < DayFromYear y0 then y0 - 1
         else if DayFromYear (y0 + 1) \<le> d then y0 + 1
         else y0)"

definition InLeapYear :: "int \<Rightarrow> int" where
  "InLeapYear y = (if DaysInYear y = 366 then 1 else 0)"

definition monthStart :: "int \<Rightarrow> int \<Rightarrow> int" where
  "monthStart L m =
     (if m = 0 then 0 else if m = 1 then 31 else if m = 2 then 59 + L
      else if m = 3 then 90 + L else if m = 4 then 120 + L else if m = 5 then 151 + L
      else if m = 6 then 181 + L else if m = 7 then 212 + L else if m = 8 then 243 + L
      else if m = 9 then 273 + L else if m = 10 then 304 + L else 334 + L)"

definition monthOfYearDay :: "int \<Rightarrow> int \<Rightarrow> int" where
  "monthOfYearDay L w =
     (if w < 31 then 0 else if w < 59 + L then 1 else if w < 90 + L then 2
      else if w < 120 + L then 3 else if w < 151 + L then 4 else if w < 181 + L then 5
      else if w < 212 + L then 6 else if w < 243 + L then 7 else if w < 273 + L then 8
      else if w < 304 + L then 9 else if w < 334 + L then 10 else 11)"

definition MonthFromDay :: "int \<Rightarrow> int" where
  "MonthFromDay d =
     (let y = YearFromDay d in monthOfYearDay (InLeapYear y) (d - DayFromYear y))"

definition DateFromDay :: "int \<Rightarrow> int" where
  "DateFromDay d =
     (let y = YearFromDay d
      in d - DayFromYear y - monthStart (InLeapYear y) (MonthFromDay d) + 1)"

definition MakeDay :: "int \<Rightarrow> int \<Rightarrow> int \<Rightarrow> int" where
  "MakeDay y m dt =
     (let ym = y + m div 12; mn = m mod 12
      in DayFromYear ym + monthStart (InLeapYear ym) mn + dt - 1)"

definition monthLength :: "int \<Rightarrow> int \<Rightarrow> int" where
  "monthLength L m =
     (if m = 1 then 28 + L
      else if m = 3 then 30 else if m = 5 then 30 else if m = 8 then 30
      else if m = 10 then 30 else 31)"

definition daysInMonth :: "int \<Rightarrow> int \<Rightarrow> int" where
  "daysInMonth y m = monthLength (InLeapYear y) m"

text \<open>
  Time values outside \<open>\<plusminus>8.64e15\<close> ms make an invalid date (\<open>None\<close>).  Local time is
  UTC plus \<open>tz\<close> milliseconds.  The constructor reads a year from 0 to 99 as 19xx.
\<close>

definition TimeClip :: "int \<Rightarrow> int option" where
  "TimeClip t = (if \<bar>t\<bar> \<le> 8640000000000000 then Some t else None)"

definition fullYear :: "int \<Rightarrow> int" where
  "fullYear y = (if 0 \<le> y \<and> y \<le> 99 then 1900 + y else y)"

definition newDate :: "int \<Rightarrow> int \<Rightarrow> int \<Rightarrow> int \<Rightarrow> int option" where
  "newDate tz y m dt = TimeClip (MakeDay (fullYear y) m dt * msPerDay - tz)"

definition DateUTC :: "int \<Rightarrow> int \<Rightarrow> int \<Rightarrow> int option" where
  "DateUTC y m dt = TimeClip (MakeDay (fullYear y) m dt * msPerDay)"

definition localDay :: "int \<Rightarrow> int \<Rightarrow> int" where
  "localDay tz t = (t + tz) div msPerDay"

definition getFullYear :: "int \<Rightarrow> int \<Rightarrow> int" where
  "getFullYear tz t = YearFromDay (localDay tz t)"

definition getMonth :: "int \<Rightarrow> int \<Rightarrow> int" where
  "getMonth tz t = MonthFromDay (localDay tz t)"

definition getDate :: "int \<Rightarrow> int \<Rightarrow> int" where
  "getDate tz t = DateFromDay (localDay tz t)"

definition setHours :: "int \<Rightarrow> int \<Rightarrow> int \<Rightarrow> int \<Rightarrow> int \<Rightarrow> int \<Rightarrow> int option" where
  "setHours tz t h mi sec ms =
     TimeClip (localDay tz t * msPerDay + (h * 3600000 + mi * 60000 + sec * 1000 + ms) - tz)"

subsection \<open>Date parsing (utils)\<close>

definition digitVal :: "char \<Rightarrow> int" where
  "digitVal c =
     (case map_of (zip ''0123456789'' [0, 1, 2, 3, 4, 5, 6, 7, 8, 9]) c of
        Some v \<Rightarrow> v
      | None \<Rightarrow> 0)"

definition digitsValue :: "string \<Rightarrow> int" where
  "digitsValue ds = foldl (\<lambda>acc c. 10 * acc + digitVal c) 0 ds"

text \<open>
  \<open>parseInt(s, 10)\<close>: leading white space and one sign are skipped, the longest run of
  digits is read, and no digit at all gives \<open>NaN\<close> (\<open>None\<close>).
\<close>

definition parseInt :: "string \<Rightarrow> int option" where
  "parseInt s =
     (let s1 = dropWhile isSpace s;
          neg = (case s1 of c # _ \<Rightarrow> c = CHR ''-'' | [] \<Rightarrow> False);
          s2 = (case s1 of c # r \<Rightarrow> if c = CHR ''-'' \<or> c = CHR ''+'' then r else s1 | [] \<Rightarrow> s1);
          ds = takeWhile isDigit s2
      in if ds = [] then None
         else Some (if neg then - digitsValue ds else digitsValue ds))"

text \<open>\<open>s.split(/[-\/]/)\<close>.\<close>

fun splitOn :: "(char \<Rightarrow> bool) \<Rightarrow> string \<Rightarrow> string list" where
  "splitOn p [] = [[]]"
| "splitOn p (c # cs) =
     (if p c then [] # splitOn p cs
      else (case splitOn p cs of w # ws \<Rightarrow> (c # w) # ws | [] \<Rightarrow> [[c]]))"

definition isDateSep :: "char \<Rightarrow> bool" where
  "isDateSep c = (c = CHR ''-'' \<or> c = CHR ''/'')"

definition monthMap :: "(string \<times> int) list" where
  "monthMap =
     [(''JAN'', 0), (''FEB'', 1), (''MAR'', 2), (''APR'', 3), (''MAY'', 4), (''JUN'', 5),
      (''JUL'', 6), (''AUG'', 7), (''SEP'', 8), (''OCT'', 9), (''NOV'', 10), (''DEC'', 11)]"

text \<open>
  The block of \<open>parseSheetDate\<close> guarded by \<open>parts.length === 3\<close>: the date it returns,
  or \<open>None\<close> when control falls through to the fallback.
\<close>

definition validatedDate :: "int \<Rightarrow> string \<Rightarrow> int option" where
  "validatedDate tz safeDateString =
     (case splitOn isDateSep safeDateString of
        [p0, p1, p2] \<Rightarrow>
          let day = (if parseInt p1 = None then parseInt p0 else parseInt p1);
              month = (if parseInt p1 = None then map_of monthMap (toUpperCase p1)
                       else map_option (\<lambda>n. n - 1) (parseInt p0));
              year = parseInt p2
          in (case (day, month, year) of
                (Some dy, Some mo, Some yr) \<Rightarrow>
                  if yr > 1900 \<and> dy > 0 \<and> dy \<le> 31 \<and> mo \<ge> 0 \<and> mo < 12
                  then (case newDate tz yr mo dy of
                          Some t \<Rightarrow>
                            if getFullYear tz t = yr \<and> getMonth tz t = mo \<and> getDate tz t = dy
                            then Some t else None
                        | None \<Rightarrow> None)
                  else None
              | _ \<Rightarrow> None)
      | _ \<Rightarrow> None)"

text \<open>
  \<open>parseSheetDate\<close>.  The fallback \<open>new Date(safeDateString)\<close> parses a string in a way
  the language leaves to the engine, so the engine's parser is the parameter \<open>fb\<close>
  (\<open>None\<close> for an invalid date).  The result is never an invalid date.
\<close>

definition parseSheetDate :: "int \<Rightarrow> (string \<Rightarrow> int option) \<Rightarrow> string \<Rightarrow> int" where
  "parseSheetDate tz fb dateString =
     (if dateString = [] then 0
      else
        let safeDateString = trim dateString
        in (case validatedDate tz safeDateString of
              Some t \<Rightarrow> t
            | None \<Rightarrow> (case fb safeDateString of Some t \<Rightarrow> t | None \<Rightarrow> 0)))"

text \<open>
  How the two formats of the specification write the calendar date \<open>(y, m, d)\<close>, with
  \<open>m\<close> counted from 0 as the language does: \<open>MM/DD/YYYY\<close> and \<open>DD-Mon-YYYY\<close>.  The
  texts are built from a digit table and a table of month abbreviations of their own;
  nothing of the parser is used to say what a text means.
\<close>

definition digitChar :: "int \<Rightarrow> char" where
  "digitChar k = ''0123456789'' ! nat k"

definition twoDigits :: "int \<Rightarrow> string" where
  "twoDigits n = [digitChar (n div 10), digitChar (n mod 10)]"

definition fourDigits :: "int \<Rightarrow> string" where
  "fourDigits n = twoDigits (n div 100) @ twoDigits (n mod 100)"

definition monthAbbrev :: "string list" where
  "monthAbbrev =
     [''Jan'', ''Feb'', ''Mar'', ''Apr'', ''May'', ''Jun'',
      ''Jul'', ''Aug'', ''Sep'', ''Oct'', ''Nov'', ''Dec'']"

definition textMDY :: "int \<Rightarrow> int \<Rightarrow> int \<Rightarrow> string" where
  "textMDY y m d = twoDigits (m + 1) @ ''/'' @ twoDigits d @ ''/'' @ fourDigits y"

definition textDMonY :: "int \<Rightarrow> int \<Rightarrow> int \<Rightarrow> string" where
  "textDMonY y m d = twoDigits d @ ''-'' @ monthAbbrev ! nat m @ ''-'' @ fourDigits y"

definition dateTexts :: "int \<Rightarrow> int \<Rightarrow> int \<Rightarrow> string list" where
  "dateTexts y m d = [textMDY y m d, textDMonY y m d]"

text \<open>
  The engine parser of the examples: what V8's legacy date parser makes of three
  numbers separated by slashes.  A first number that is not from 1 to 31 is a year and the
  order is year/month/day, otherwise it is month/day/year; a year below 50 is 20xx and one below
  100 is 19xx; the month must be 1 to 12 and the day 1 to 31, whatever the month, and a
  day past the end of the month runs over into the next one.  The result is a local
  midnight.  On a string of any other shape this model answers \<open>None\<close>; in what follows
  it is given such a string only in the words \<open>garbage\<close> and \<open>nonsense\<close>, which V8
  rejects as well.
\<close>

definition lenientDateParse :: "int \<Rightarrow> string \<Rightarrow> int option" where
  "lenientDateParse tz s =
     (case splitOn (\<lambda>c. c = CHR ''/'') s of
        [a, b, c] \<Rightarrow>
          if a \<noteq> [] \<and> b \<noteq> [] \<and> c \<noteq> [] \<and> list_all isDigit (a @ b @ c)
          then
            let n0 = digitsValue a; n1 = digitsValue b; n2 = digitsValue c;
                ymd = (n0 < 1 \<or> 31 < n0);
                yr0 = (if ymd then n0 else n2);
                mo = (if ymd then n1 else n0);
                dy = (if ymd then n2 else n1);
                yr = (if yr0 \<le> 49 then 2000 + yr0 else if yr0 \<le> 99 then 1900 + yr0 else yr0)
            in if 1 \<le> mo \<and> mo \<le> 12 \<and> 1 \<le> dy \<and> dy \<le> 31
               then TimeClip (MakeDay yr (mo - 1) dy * msPerDay - tz)
               else None
          else None
      | _ \<Rightarrow> None)"

subsection \<open>Booking deadlines (utils)\<close>

text \<open>
  \<open>/(\d+):(\d+)(:(\d+))?\s*(AM|PM)/i\<close> tried at the start of \<open>s\<close>: the hour digits, the
  minute digits and the uppercased AM/PM mark.  Every piece of the pattern is followed by
  a character it cannot itself match, so each greedy piece takes its longest run and no
  other split can succeed.
\<close>

definition matchTimeAt :: "string \<Rightarrow> (string \<times> string \<times> string) option" where
  "matchTimeAt s =
     (let h = takeWhile isDigit s; r1 = dropWhile isDigit s
      in if h = [] then None
         else (case r1 of
                 [] \<Rightarrow> None
               | c1 # r2 \<Rightarrow>
                   if c1 \<noteq> CHR '':'' then None
                   else
                     let mi = takeWhile isDigit r2; r3 = dropWhile isDigit r2
                     in if mi = [] then None
                        else
                          let r4 = (case r3 of
                                      [] \<Rightarrow> r3
                                    | c3 # r5 \<Rightarrow>
                                        if c3 = CHR '':'' \<and> takeWhile isDigit r5 \<noteq> []
                                        then dropWhile isDigit r5 else r3);
                              ampm = toUpperCase (take 2 (dropWhile isSpace r4))
                          in if ampm = ''AM'' \<or> ampm = ''PM'' then Some (h, mi, ampm)
                             else None))"

text \<open>\<open>timeStr.match(...)\<close>: the leftmost position at which the pattern matches.\<close>

fun matchTime :: "string \<Rightarrow> (string \<times> string \<times> string) option" where
  "matchTime [] = None"
| "matchTime (c # cs) =
     (case matchTimeAt (c # cs) of Some r \<Rightarrow> Some r | None \<Rightarrow> matchTime cs)"

text \<open>
  \<open>parseDeadline\<close>: \<open>None\<close> is \<open>null\<close>; otherwise the date after \<open>setHours\<close>, which is
  itself \<open>None\<close> when the hours push the time value out of range (an invalid date).
\<close>

definition parseDeadline :: "int \<Rightarrow> (string \<Rightarrow> int option) \<Rightarrow> string \<Rightarrow> string \<Rightarrow> int option option" where
  "parseDeadline tz fb dateStr timeStr =
     (if dateStr = [] \<or> timeStr = [] then None
      else
        let date = parseSheetDate tz fb dateStr
        in if date = 0 then None
           else (case matchTime timeStr of
                   None \<Rightarrow> None
                 | Some (h, mi, ampm) \<Rightarrow>
                     let hours = digitsValue h;
                         minutes = digitsValue mi;
                         hours1 = (if ampm = ''PM'' \<and> hours < 12 then hours + 12 else hours);
                         hours2 = (if ampm = ''AM'' \<and> hours1 = 12 then 0 else hours1)
                     in Some (setHours tz date hours2 minutes 0 0)))"

text \<open>
  The deadline as the specification words it: the end date plus the end time on a
  12-hour clock, where 12 AM is hour 0 and 12 PM is hour 12.  \<open>clockTexts\<close> lists how the
  time \<open>h:mi\<close> is written: the hour with or without a leading zero (the booking form
  writes it without), the minutes in two digits, a blank, and the mark in capitals or
  in small letters.
\<close>

definition hour24 :: "int \<Rightarrow> bool \<Rightarrow> int" where
  "hour24 h pm = (if pm then (if h = 12 then 12 else h + 12) else (if h = 12 then 0 else h))"

definition deadlineAt :: "int \<Rightarrow> int \<Rightarrow> int \<Rightarrow> int \<Rightarrow> int \<Rightarrow> int \<Rightarrow> bool \<Rightarrow> int" where
  "deadlineAt tz y m d h mi pm =
     MakeDay y m d * msPerDay - tz + hour24 h pm * 3600000 + mi * 60000"

definition hourTexts :: "int \<Rightarrow> string list" where
  "hourTexts h = (if h < 10 then [[digitChar h], twoDigits h] else [twoDigits h])"

definition clockTexts :: "int \<Rightarrow> int \<Rightarrow> bool \<Rightarrow> string list" where
  "clockTexts h mi pm =
     concat (map (\<lambda>hh. map (\<lambda>mark. hh @ '':'' @ twoDigits mi @ '' '' @ mark)
                          (if pm then [''PM'', ''pm''] else [''AM'', ''am'']))
                 (hourTexts h))"

subsection \<open>Bookings (booking)\<close>

record booking =
  bk_name :: string
  bk_id_no :: string
  bk_phone :: string
  bk_account_name :: string
  bk_account_type :: string
  bk_account_link :: string
  bk_departure :: string
  bk_destination :: string
  bk_departing_on :: string
  bk_pnr :: string
  remark :: string
  enddate :: string
  endtime :: string
  bk_rowIndex :: nat
  groupId :: string

text \<open>
  \<open>parseBookingData\<close>, for a sheet whose header names the columns A to M in the order
  every write of the program uses.  A cell that is missing reads as the empty string.
\<close>

definition cell :: "string list \<Rightarrow> nat \<Rightarrow> string" where
  "cell row j = (if j < length row then trim (row ! j) else [])"

definition parseBookingRow :: "nat \<Rightarrow> string list \<Rightarrow> booking" where
  "parseBookingRow i row =
     (let groupIdBase = (if cell row 9 \<noteq> [] then cell row 9
                         else cell row 2 @ ''-'' @ cell row 5)
      in \<lparr>bk_name = cell row 0, bk_id_no = cell row 1, bk_phone = cell row 2,
          bk_account_name = cell row 3, bk_account_type = cell row 4,
          bk_account_link = cell row 5, bk_departure = cell row 6,
          bk_destination = cell row 7, bk_departing_on = cell row 8, bk_pnr = cell row 9,
          remark = cell row 10, enddate = cell row 11, endtime = cell row 12,
          bk_rowIndex = i + 2,
          groupId = groupIdBase @ ''-'' @ cell row 8 @ ''-'' @ cell row 6 @ ''-'' @ cell row 7\<rparr>)"

definition parseBookingData :: "string list list \<Rightarrow> booking list" where
  "parseBookingData values =
     (case values of
        [] \<Rightarrow> []
      | header # rows \<Rightarrow> map (\<lambda>(i, row). parseBookingRow i row) (enumerate 0 rows))"

text \<open>
  What the program does to the world is kept as a list of events, in order.  The remote
  sheet is the list of its rows, the header first, so that row number \<open>i\<close> of a range
  (counted from 1) is element \<open>i - 1\<close>; a write below the last row adds empty rows in
  between.  A batch write either succeeds, and then every row of the batch is stored, or
  fails with a message, which \<open>api\<close> shows as a toast before it rethrows.
\<close>

datatype event =
    Toast string string
  | Displayed "booking list"
  | Notified
  | BatchWrite "(nat \<times> string list) list"
  | EmptyState string

datatype remote = Succeeds | Fails string

fun isBatchWrite :: "event \<Rightarrow> bool" where
  "isBatchWrite (BatchWrite _) = True"
| "isBatchWrite _ = False"

text \<open>
  \<open>bookingCache\<close> is \<open>state.cache['bookingData']\<close>: the rows of the last fetch, or
  \<open>None\<close> once a write has cleared it.
\<close>

record bookingState =
  allBookings :: "booking list"
  isSubmitting :: bool
  bookingCache :: "string list list option"
  bookingSheet :: "string list list"

definition writeRow :: "string list list \<Rightarrow> nat \<Rightarrow> string list \<Rightarrow> string list list" where
  "writeRow sh i v =
     (if i = 0 then sh
      else if i \<le> length sh then sh[i - 1 := v]
      else sh @ replicate (i - 1 - length sh) [] @ [v])"

definition storeRows :: "string list list \<Rightarrow> (nat \<times> string list) list \<Rightarrow> string list list" where
  "storeRows sh data = foldl (\<lambda>rows (i, v). writeRow rows i v) sh data"

definition errorText :: "string \<Rightarrow> string \<Rightarrow> string" where
  "errorText msg dflt = (if msg = [] then dflt else msg)"

definition batchUpdateSheet :: "remote \<Rightarrow> (nat \<times> string list) list \<Rightarrow> string list list
    \<Rightarrow> bool \<times> string list list \<times> event list" where
  "batchUpdateSheet r data sh =
     (case r of
        Succeeds \<Rightarrow> (True, storeRows sh data, [BatchWrite data])
      | Fails msg \<Rightarrow>
          (False, sh,
           [BatchWrite data,
            Toast (''Update Error: '' @ errorText msg ''Could not update.'') ''error'']))"

text \<open>
  \<open>fetchFromSheet\<close> for the booking range: the cached rows while the cache is younger
  than five minutes (\<open>fresh\<close>), else the rows of the sheet, which are then cached.  A
  failed request shows a toast and rethrows (\<open>None\<close>).
\<close>

definition fetchFromSheet :: "remote \<Rightarrow> bool \<Rightarrow> bookingState
    \<Rightarrow> string list list option \<times> bookingState \<times> event list" where
  "fetchFromSheet rf fresh st =
     (case (if fresh then bookingCache st else None) of
        Some data \<Rightarrow> (Some data, st, [])
      | None \<Rightarrow>
          (case rf of
             Succeeds \<Rightarrow>
               (Some (bookingSheet st), st\<lparr>bookingCache := Some (bookingSheet st)\<rparr>, [])
           | Fails msg \<Rightarrow>
               (None, st,
                [Toast (''API Error: '' @ errorText msg ''Could not fetch data.'') ''error''])))"

definition rowValues :: "string \<Rightarrow> booking \<Rightarrow> string list" where
  "rowValues rem b =
     [bk_name b, bk_id_no b, bk_phone b, bk_account_name b, bk_account_type b,
      bk_account_link b, bk_departure b, bk_destination b, bk_departing_on b, bk_pnr b,
      rem, enddate b, endtime b]"

definition hasNoAction :: "booking \<Rightarrow> bool" where
  "hasNoAction b = (remark b = [] \<or> trim (remark b) = [])"

text \<open>\<open>deadline && deadline < now\<close>: false for \<open>null\<close> and for an invalid date.\<close>

definition deadlinePassed :: "int option option \<Rightarrow> int \<Rightarrow> bool" where
  "deadlinePassed deadline now =
     (case deadline of Some (Some t) \<Rightarrow> t < now | _ \<Rightarrow> False)"

definition isExpired :: "int \<Rightarrow> (string \<Rightarrow> int option) \<Rightarrow> int \<Rightarrow> booking \<Rightarrow> bool" where
  "isExpired tz fb now b =
     (hasNoAction b \<and> deadlinePassed (parseDeadline tz fb (enddate b) (endtime b)) now)"

definition handleExpiredBookings :: "int \<Rightarrow> (string \<Rightarrow> int option) \<Rightarrow> int \<Rightarrow> remote \<Rightarrow> bookingState
    \<Rightarrow> bookingState \<times> event list" where
  "handleExpiredBookings tz fb now r st =
     (let expiredBookingsToUpdate =
            map (\<lambda>b. (bk_rowIndex b, rowValues ''end'' b))
              (filter (isExpired tz fb now) (allBookings st))
      in if expiredBookingsToUpdate = [] then (st, [])
         else
           (case batchUpdateSheet r expiredBookingsToUpdate (bookingSheet st) of
              (True, sh, ev) \<Rightarrow>
                let updatedRowIndices = map fst expiredBookingsToUpdate
                in (st\<lparr>bookingCache := None,
                       allBookings :=
                         filter (\<lambda>b. bk_rowIndex b \<notin> set updatedRowIndices) (allBookings st),
                       bookingSheet := sh\<rparr>,
                    ev)
            | (False, sh, ev) \<Rightarrow>
                (st\<lparr>bookingSheet := sh\<rparr>,
                 ev @ [Toast ''Could not update expired bookings automatically.'' ''error''])))"

text \<open>
  The bookings \<open>displayBookings\<close> shows when called without an argument: no remark, and
  travel on or after today's local midnight.
\<close>

definition activeBookings :: "int \<Rightarrow> (string \<Rightarrow> int option) \<Rightarrow> int \<Rightarrow> booking list \<Rightarrow> booking list" where
  "activeBookings tz fb now bs =
     filter (\<lambda>b. hasNoAction b \<and>
                (case setHours tz now 0 0 0 0 of
                   Some today \<Rightarrow> parseSheetDate tz fb (bk_departing_on b) \<ge> today
                 | None \<Rightarrow> False)) bs"

text \<open>
  \<open>loadBookingData\<close>.  \<open>Displayed bs\<close> records a call of \<open>displayBookings()\<close> made
  while \<open>state.allBookings\<close> was \<open>bs\<close>; what it puts on the screen is
  \<open>activeBookings\<close> of \<open>bs\<close>.  A response without values (an empty sheet) is the empty
  list of rows.  Filling the search options of the page is left out.
\<close>

definition loadBookingData :: "int \<Rightarrow> (string \<Rightarrow> int option) \<Rightarrow> int \<Rightarrow> remote \<Rightarrow> bool \<Rightarrow> remote
    \<Rightarrow> bookingState \<Rightarrow> bookingState \<times> event list" where
  "loadBookingData tz fb now rf fresh r st =
     (case fetchFromSheet rf fresh st of
        (None, st1, ev) \<Rightarrow> (st1, ev @ [EmptyState ''Failed to load bookings''])
      | (Some values, st1, ev) \<Rightarrow>
          let (st2, ev2) =
                (if values = [] then (st1\<lparr>allBookings := []\<rparr>, [])
                 else handleExpiredBookings tz fb now r
                        (st1\<lparr>allBookings := parseBookingData values\<rparr>))
          in (st2, ev @ ev2 @ [Displayed (allBookings st2)]))"

text \<open>
  The rows a load works on when its request succeeds: the cached rows while they are
  fresh, else the rows of the sheet.
\<close>

definition readValues :: "bool \<Rightarrow> bookingState \<Rightarrow> string list list" where
  "readValues fresh st =
     (case bookingCache st of
        Some data \<Rightarrow> if fresh then data else bookingSheet st
      | None \<Rightarrow> bookingSheet st)"

text \<open>
  \<open>updateBookingStatus\<close>.
\<close>

definition updateBookingStatus :: "remote \<Rightarrow> nat list \<Rightarrow> string \<Rightarrow> bookingState
    \<Rightarrow> bookingState \<times> event list" where
  "updateBookingStatus r rowIndices rem st =
     (if isSubmitting st then (st, [])
      else
        let bookingsToUpdate =
              List.map_filter (\<lambda>ri. find (\<lambda>b. bk_rowIndex b = ri) (allBookings st)) rowIndices;
            originalAllBookings = allBookings st;
            remaining = filter (\<lambda>b. bk_rowIndex b \<notin> set rowIndices) (allBookings st);
            ev0 = [Toast ''Updating booking status...'' ''info'', Displayed remaining, Notified];
            data = map (\<lambda>b. (bk_rowIndex b, rowValues rem b)) bookingsToUpdate
        in if data = []
           then (st\<lparr>allBookings := originalAllBookings, isSubmitting := False\<rparr>,
                 ev0 @ [Displayed originalAllBookings, Notified])
           else
             (case batchUpdateSheet r data (bookingSheet st) of
                (True, sh, ev) \<Rightarrow>
                  (st\<lparr>allBookings := remaining, bookingCache := None,
                      isSubmitting := False, bookingSheet := sh\<rparr>,
                   ev0 @ ev @ [Toast ''Booking updated successfully!'' ''success''])
              | (False, sh, ev) \<Rightarrow>
                  (st\<lparr>allBookings := originalAllBookings, isSubmitting := False,
                      bookingSheet := sh\<rparr>,
                   ev0 @ ev @ [Displayed originalAllBookings, Notified])))"

text \<open>A booking with every field empty, and a state to build examples from.\<close>

definition emptyBooking :: booking where
  "emptyBooking =
     \<lparr>bk_name = [], bk_id_no = [], bk_phone = [], bk_account_name = [],
      bk_account_type = [], bk_account_link = [], bk_departure = [], bk_destination = [],
      bk_departing_on = [], bk_pnr = [], remark = [], enddate = [], endtime = [],
      bk_rowIndex = 0, groupId = []\<rparr>"

definition idleState :: "booking list \<Rightarrow> bookingState" where
  "idleState bs =
     \<lparr>allBookings = bs, isSubmitting = False, bookingCache = None, bookingSheet = []\<rparr>"

text \<open>The row indices that the batch writes of an event list address.\<close>

definition writtenRows :: "event list \<Rightarrow> nat list" where
  "writtenRows ev =
     concat (map (\<lambda>e. case e of BatchWrite data \<Rightarrow> map fst data | _ \<Rightarrow> []) ev)"

text \<open>
  \<open>displayedBeforeWrite ev bs\<close>: in \<open>ev\<close> the list \<open>bs\<close> is displayed before the first
  batch write is sent.
\<close>

fun displayedBeforeWrite :: "event list \<Rightarrow> booking list \<Rightarrow> bool" where
  "displayedBeforeWrite [] bs = False"
| "displayedBeforeWrite (BatchWrite _ # es) bs = False"
| "displayedBeforeWrite (Displayed xs # es) bs = (xs = bs \<or> displayedBeforeWrite es bs)"
| "displayedBeforeWrite (_ # es) bs = displayedBeforeWrite es bs"

text \<open>
  Two bookings whose end date is 1 January 2020: the end time of the first is not a
  time, the second ended at 10:00 AM.  And a state in which a submission is in flight.
\<close>

definition malformedBooking :: booking where
  "malformedBooking =
     emptyBooking\<lparr>bk_name := ''A'', enddate := ''01/01/2020'', endtime := ''soon'',
                  bk_rowIndex := 2\<rparr>"

definition expiredBooking :: booking where
  "expiredBooking =
     emptyBooking\<lparr>bk_name := ''B'', enddate := ''01/01/2020'', endtime := ''10:00 AM'',
                  bk_rowIndex := 3\<rparr>"

definition deadExample :: "booking list" where
  "deadExample = [malformedBooking, expiredBooking]"

definition busyExample :: bookingState where
  "busyExample = (idleState [emptyBooking\<lparr>bk_name := ''A'', bk_rowIndex := 2\<rparr>])\<lparr>isSubmitting := True\<rparr>"

text \<open>
  A booking sheet of three rows, all without a remark and all travelling on 31 December
  2030: the end time of \<open>A\<close> is not a time, \<open>B\<close> ended on 1 January 2020 at 3:45 PM,
  and \<open>C\<close> ends on 31 December 2030 at 9:00 AM.
\<close>

definition bookingRow :: "string \<Rightarrow> string \<Rightarrow> string \<Rightarrow> string \<Rightarrow> string list" where
  "bookingRow nm rem ed et =
     [nm, [], [], [], [], [], [], [], ''12/31/2030'', [], rem, ed, et]"

definition sampleBookingSheet :: "string list list" where
  "sampleBookingSheet =
     [[''Name'', ''NRC No'', ''Phone'', ''Account Name'', ''Account Type'', ''Account Link'',
       ''Departure'', ''Destination'', ''Departing On'', ''PNR'', ''Remark'', ''Enddate'',
       ''Endtime''],
      bookingRow ''A'' [] ''01/01/2020'' ''soon'',
      bookingRow ''B'' [] ''01-Jan-2020'' ''3:45 PM'',
      bookingRow ''C'' [] ''12/31/2030'' ''09:00 am'']"

definition sampleExpired :: booking where
  "sampleExpired = parseBookingRow 1 (bookingRow ''B'' [] ''01-Jan-2020'' ''3:45 PM'')"

definition sheetState :: "string list list \<Rightarrow> bookingState" where
  "sheetState values =
     \<lparr>allBookings = [], isSubmitting = False, bookingCache = None, bookingSheet = values\<rparr>"

subsection \<open>Ticket rows\<close>

record ticket =
  issued_date :: string
  name :: string
  id_no :: string
  phone :: string
  account_name :: string
  account_type :: string
  account_link :: string
  departure :: string
  destination :: string
  departing_on :: string
  airline :: string
  base_fare :: int
  booking_reference :: string
  net_amount :: int
  paid :: bool
  payment_method :: string
  paid_date :: string
  commission :: int
  remarks :: string
  extra_fare :: int
  date_change :: int
  gender :: string
  rowIndex :: nat

subsection \<open>Fee rows and passenger names (ui, manage)\<close>

text \<open>
  \<open>/\(fees\)\s*$/i.test(s)\<close>: after the trailing white space, \<open>s\<close> ends with
  \<open>(fees)\<close> in any letter case.  The test reads \<open>s\<close> from its end.
\<close>

definition feesSuffixTest :: "string \<Rightarrow> bool" where
  "feesSuffixTest s = prefix '')seef('' (toLowerCase (dropWhile isSpace (rev s)))"

text \<open>
  \<open>s.replace(/\s*\(fees\)\s*$/i, '')\<close>: the leftmost match starts at the beginning of
  the white space in front of the final \<open>(fees)\<close>, so the suffix and the white space
  on both of its sides go; a string without the suffix is returned as it is.
\<close>

definition stripFeesSuffix :: "string \<Rightarrow> string" where
  "stripFeesSuffix s =
     (let r = dropWhile isSpace (rev s)
      in if prefix '')seef('' (toLowerCase r) then rev (dropWhile isSpace (drop 6 r)) else s)"

definition normalizePassengerName :: "string \<Rightarrow> string" where
  "normalizePassengerName nm =
     (let raw = trim nm
      in if raw = [] then ''N/A'' else trim (stripFeesSuffix raw))"

definition isFeeEntryRow :: "ticket \<Rightarrow> bool" where
  "isFeeEntryRow t =
     (feesSuffixTest (name t) \<or> str_includes (toLowerCase (remarks t)) ''fee entry'')"

definition isFeeRow :: "ticket \<Rightarrow> bool" where
  "isFeeRow t =
     (str_includes (toLowerCase (name t)) ''(fees)''
      \<or> str_includes (toLowerCase (remarks t)) ''fee entry'')"

text \<open>
  The specification's wording of the rule: the name ends with \<open>(Fees)\<close> in any letter
  case, or the remarks contain \<open>fee entry\<close>.
\<close>

definition specFeeEntry :: "ticket \<Rightarrow> bool" where
  "specFeeEntry t =
     (suffix ''(fees)'' (toLowerCase (name t))
      \<or> str_includes (toLowerCase (remarks t)) ''fee entry'')"

subsection \<open>Unpaid grouping (updateNotifications)\<close>

record unpaidGroup =
  pnr :: string
  passengers :: "string list"
  totalDue :: int

text \<open>
  The object \<open>unpaidGroups\<close> is an association list in insertion order; \<open>upsert\<close>
  stores a group under its key, in place when the key is there already.
\<close>

fun upsert :: "('k \<times> 'v) list \<Rightarrow> 'k \<Rightarrow> 'v \<Rightarrow> ('k \<times> 'v) list" where
  "upsert [] k v = [(k, v)]"
| "upsert ((k', v') # kvs) k v =
     (if k' = k then (k, v) # kvs else (k', v') # upsert kvs k v)"

definition unpaidPnr :: "ticket \<Rightarrow> string" where
  "unpaidPnr t =
     toUpperCase (if booking_reference t = [] then ''N/A'' else booking_reference t)"

definition unpaidAmount :: "ticket \<Rightarrow> int" where
  "unpaidAmount t = net_amount t + extra_fare t + date_change t"

text \<open>One turn of the \<open>forEach\<close> over \<open>state.allTickets\<close>.\<close>

definition unpaidStep :: "(string \<times> unpaidGroup) list \<Rightarrow> ticket \<Rightarrow> (string \<times> unpaidGroup) list" where
  "unpaidStep groups t =
     (if paid t then groups
      else
        let lowerRemarks = toLowerCase (remarks t)
        in if str_includes lowerRemarks ''cancel'' \<or> str_includes lowerRemarks ''refund''
           then groups
           else
             let p = unpaidPnr t;
                 g0 = (case map_of groups p of
                         None \<Rightarrow> \<lparr>pnr = p, passengers = [], totalDue = 0\<rparr>
                       | Some g \<Rightarrow> g);
                 g1 = g0\<lparr>totalDue := totalDue g0 + unpaidAmount t\<rparr>;
                 g2 = (if name t = [] then g1
                       else
                         let cleanName = normalizePassengerName (name t)
                         in if cleanName \<in> set (passengers g1) then g1
                            else g1\<lparr>passengers := passengers g1 @ [cleanName]\<rparr>)
             in upsert groups p g2)"

definition unpaidGroups :: "ticket list \<Rightarrow> (string \<times> unpaidGroup) list" where
  "unpaidGroups ts = foldl unpaidStep [] ts"

text \<open>The tickets the grouping is about: unpaid and not cancelled or refunded.\<close>

definition unpaidActive :: "ticket \<Rightarrow> bool" where
  "unpaidActive t =
     (\<not> paid t
      \<and> \<not> str_includes (toLowerCase (remarks t)) ''cancel''
      \<and> \<not> str_includes (toLowerCase (remarks t)) ''refund'')"

text \<open>
  The key the specification groups by: the PNR in capitals, with \<open>N/A\<close> standing for a
  missing one.
\<close>

definition pnrKey :: "ticket \<Rightarrow> string" where
  "pnrKey t = (if booking_reference t = [] then ''N/A'' else toUpperCase (booking_reference t))"

text \<open>A row with every text field empty and every amount zero, to build examples from.\<close>

definition emptyTicket :: ticket where
  "emptyTicket =
     \<lparr>issued_date = [], name = [], id_no = [], phone = [], account_name = [],
      account_type = [], account_link = [], departure = [], destination = [],
      departing_on = [], airline = [], base_fare = 0, booking_reference = [],
      net_amount = 0, paid = False, payment_method = [], paid_date = [], commission = 0,
      remarks = [], extra_fare = 0, date_change = 0, gender = [], rowIndex = 0\<rparr>"

text \<open>The two rows of the specification's scenario for PNR \<open>AB1\<close>.\<close>

definition scenarioAB1 :: "ticket list" where
  "scenarioAB1 =
     [emptyTicket\<lparr>booking_reference := ''AB1'', name := ''JOHN (Fees)'',
                  remarks := ''Fee Entry'', net_amount := 0, extra_fare := 5000\<rparr>,
      emptyTicket\<lparr>booking_reference := ''AB1'', name := ''MR JOHN'',
                  net_amount := 100000, paid := False\<rparr>]"

text \<open>
  Five rows: one PNR written in two letter cases, a paid row, a row without a PNR, and a
  cancelled row.
\<close>

definition mixedCaseTickets :: "ticket list" where
  "mixedCaseTickets =
     [emptyTicket\<lparr>booking_reference := ''ab1'', name := ''A'', net_amount := 100\<rparr>,
      emptyTicket\<lparr>booking_reference := ''AB1'', name := ''B'', net_amount := 20,
                  extra_fare := 3\<rparr>,
      emptyTicket\<lparr>booking_reference := ''cd2'', name := ''C'', net_amount := 40,
                  paid := True\<rparr>,
      emptyTicket\<lparr>name := ''D'', net_amount := 7\<rparr>,
      emptyTicket\<lparr>booking_reference := ''AB1'', name := ''E'', net_amount := 50,
                  remarks := ''Cancelled by client''\<rparr>]"

subsection \<open>Settlement balance (reports, settlement)\<close>

record settlement =
  settlement_date :: string
  amount_paid :: int
  st_payment_method :: string
  transaction_id :: string
  st_status :: string
  st_notes :: string
  st_rowIndex :: nat

text \<open>The parsed issue date of a ticket and the parsed date of a settlement.\<close>

definition issuedAt :: "int \<Rightarrow> (string \<Rightarrow> int option) \<Rightarrow> ticket \<Rightarrow> int" where
  "issuedAt tz fb t = parseSheetDate tz fb (issued_date t)"

definition settledAt :: "int \<Rightarrow> (string \<Rightarrow> int option) \<Rightarrow> settlement \<Rightarrow> int" where
  "settledAt tz fb s = parseSheetDate tz fb (settlement_date s)"

text \<open>The only remark the previous-balance filters look for.\<close>

definition notFullRefund :: "ticket \<Rightarrow> bool" where
  "notFullRefund t = (\<not> str_includes (toLowerCase (remarks t)) ''full refund'')"

text \<open>\<open>new Date(Date.UTC(2025, 10, 1))\<close>, midnight UTC of 1 November 2025.\<close>

definition RESET_DATE :: int where
  "RESET_DATE = 1761955200000"

text \<open>
  The three \<open>reduce\<close> calls and the subtraction that end each branch of the
  previous-balance computation.
\<close>

definition carriedBalance :: "ticket list \<Rightarrow> settlement list \<Rightarrow> int" where
  "carriedBalance ts ss =
     (let revenue = foldl (\<lambda>sum t. sum + net_amount t + date_change t) 0 ts;
          commissionSum = foldl (\<lambda>sum t. sum + commission t) 0 ts;
          totalSettlements = foldl (\<lambda>sum s. sum + amount_paid s) 0 ss
      in revenue - (commissionSum + totalSettlements))"

text \<open>
  The branch for a period before the reset: the month before the one that holds the
  period start, found by stepping one millisecond back from the first of the month.  Both
  \<open>exportToPdf\<close> and \<open>updateSettlementDashboard\<close> contain this block, with the year and
  month of the period start and of the current time respectively.  An invalid date in it
  matches no month, which leaves both lists empty.
\<close>

definition legacyPreviousDue :: "int \<Rightarrow> (string \<Rightarrow> int option) \<Rightarrow> ticket list \<Rightarrow> settlement list
    \<Rightarrow> int \<Rightarrow> int \<Rightarrow> int" where
  "legacyPreviousDue tz fb allTickets allSettlements y m =
     (case newDate tz y m 1 of
        None \<Rightarrow> 0
      | Some firstDayOfCurrentMonth \<Rightarrow>
          (case TimeClip (firstDayOfCurrentMonth - 1) of
             None \<Rightarrow> 0
           | Some lastDayOfPreviousMonth \<Rightarrow>
               let previousMonth = getMonth tz lastDayOfPreviousMonth;
                   previousYear = getFullYear tz lastDayOfPreviousMonth;
                   ticketsLastMonth =
                     filter (\<lambda>t. getMonth tz (issuedAt tz fb t) = previousMonth
                                \<and> getFullYear tz (issuedAt tz fb t) = previousYear
                                \<and> notFullRefund t) allTickets;
                   settlementsLastMonth =
                     filter (\<lambda>s. getMonth tz (settledAt tz fb s) = previousMonth
                                \<and> getFullYear tz (settledAt tz fb s) = previousYear) allSettlements
               in carriedBalance ticketsLastMonth settlementsLastMonth))"

text \<open>
  The branch from the reset on: everything dated from \<open>RESET_DATE\<close> up to, and not
  including, \<open>upper\<close>.  Dates are compared as time values.
\<close>

definition resetPreviousDue :: "int \<Rightarrow> (string \<Rightarrow> int option) \<Rightarrow> ticket list \<Rightarrow> settlement list
    \<Rightarrow> int option \<Rightarrow> int" where
  "resetPreviousDue tz fb allTickets allSettlements upper =
     (let filterStartDate = RESET_DATE;
          before = (\<lambda>t. case upper of Some u \<Rightarrow> t < u | None \<Rightarrow> False);
          ticketsBefore =
            filter (\<lambda>t. issuedAt tz fb t \<ge> filterStartDate \<and> before (issuedAt tz fb t)
                       \<and> notFullRefund t) allTickets;
          settlementsBefore =
            filter (\<lambda>s. settledAt tz fb s \<ge> filterStartDate \<and> before (settledAt tz fb s))
              allSettlements
      in carriedBalance ticketsBefore settlementsBefore)"

text \<open>\<open>d < RESET_DATE\<close>, false for an invalid date.\<close>

definition beforeReset :: "int option \<Rightarrow> bool" where
  "beforeReset d = (case d of Some t \<Rightarrow> t < RESET_DATE | None \<Rightarrow> False)"

text \<open>The previous balance of \<open>exportToPdf\<close>; \<open>startDate\<close> is the period start.\<close>

definition previousDueReport :: "int \<Rightarrow> (string \<Rightarrow> int option) \<Rightarrow> ticket list \<Rightarrow> settlement list
    \<Rightarrow> int \<Rightarrow> int" where
  "previousDueReport tz fb allTickets allSettlements startDate =
     (let reportStartDate =
            DateUTC (getFullYear tz startDate) (getMonth tz startDate) (getDate tz startDate)
      in if beforeReset reportStartDate
         then legacyPreviousDue tz fb allTickets allSettlements
                (getFullYear tz startDate) (getMonth tz startDate)
         else resetPreviousDue tz fb allTickets allSettlements (Some startDate))"

text \<open>The previous balance of \<open>updateSettlementDashboard\<close>.\<close>

definition previousDueDashboard :: "int \<Rightarrow> (string \<Rightarrow> int option) \<Rightarrow> ticket list \<Rightarrow> settlement list
    \<Rightarrow> int \<Rightarrow> int" where
  "previousDueDashboard tz fb allTickets allSettlements now =
     (let currentMonth = getMonth tz now;
          currentYear = getFullYear tz now;
          firstDayOfCurrentMonth = DateUTC currentYear currentMonth 1
      in if beforeReset firstDayOfCurrentMonth
         then legacyPreviousDue tz fb allTickets allSettlements currentYear currentMonth
         else resetPreviousDue tz fb allTickets allSettlements firstDayOfCurrentMonth)"


definition priorMonth :: "int \<Rightarrow> int \<Rightarrow> int \<times> int" where
  "priorMonth y m = (if m = 0 then (y - 1, 11) else (y, m - 1))"

text \<open>
  Balances as the specification words them: revenue less commission over chosen tickets,
  less the settlements; over the calendar month before month \<open>m\<close> of year \<open>y\<close>; and over
  the calendar days from \<open>lo\<close> up to, and not including, \<open>hi\<close>.
\<close>

definition activeTicket :: "ticket \<Rightarrow> bool" where
  "activeTicket t =
     (\<not> str_includes (toLowerCase (remarks t)) ''cancel''
      \<and> \<not> str_includes (toLowerCase (remarks t)) ''refund'')"

definition anyTicket :: "ticket \<Rightarrow> bool" where
  "anyTicket t = True"

definition balanceOver :: "ticket list \<Rightarrow> settlement list \<Rightarrow> int" where
  "balanceOver ts ss =
     sum_list (map (\<lambda>t. net_amount t + date_change t - commission t) ts)
     - sum_list (map amount_paid ss)"

definition priorMonthBalance :: "int \<Rightarrow> (string \<Rightarrow> int option) \<Rightarrow> (ticket \<Rightarrow> bool) \<Rightarrow> ticket list
    \<Rightarrow> settlement list \<Rightarrow> int \<Rightarrow> int \<Rightarrow> int" where
  "priorMonthBalance tz fb keep ts ss y m =
     balanceOver
       (filter (\<lambda>t. getFullYear tz (issuedAt tz fb t) = fst (priorMonth y m)
                  \<and> getMonth tz (issuedAt tz fb t) = snd (priorMonth y m) \<and> keep t) ts)
       (filter (\<lambda>s. getFullYear tz (settledAt tz fb s) = fst (priorMonth y m)
                  \<and> getMonth tz (settledAt tz fb s) = snd (priorMonth y m)) ss)"

definition windowBalance :: "int \<Rightarrow> (string \<Rightarrow> int option) \<Rightarrow> (ticket \<Rightarrow> bool) \<Rightarrow> ticket list
    \<Rightarrow> settlement list \<Rightarrow> int \<Rightarrow> int \<Rightarrow> int" where
  "windowBalance tz fb keep ts ss lo hi =
     balanceOver
       (filter (\<lambda>t. lo \<le> localDay tz (issuedAt tz fb t) \<and> localDay tz (issuedAt tz fb t) < hi
                  \<and> keep t) ts)
       (filter (\<lambda>s. lo \<le> localDay tz (settledAt tz fb s) \<and> localDay tz (settledAt tz fb s) < hi)
          ss)"

definition cutoverDay :: int where
  "cutoverDay = 20393"

text \<open>
  \<open>exportToPdf\<close> for a date range: the figures of the settlement table, or \<open>None\<close> when
  no ticket falls in the range and the export stops.  \<open>mergedData\<close> is the grouping of
  the merged layout, kept in insertion order.
\<close>

record reportFigures =
  totalNetAmount :: int
  totalDateChange :: int
  totalCommission :: int
  previousEndOfMonthDue :: int
  grandTotal :: int
  totalSettlements :: int
  amountToPay :: int

record mergedRow =
  mr_first :: ticket
  mr_pax :: nat
  mr_net_amount :: int
  mr_date_change :: int
  mr_commission :: int
  mr_names :: "string list"

definition mergeStep :: "(string \<times> mergedRow) list \<Rightarrow> ticket \<Rightarrow> (string \<times> mergedRow) list" where
  "mergeStep acc t =
     (let key = account_link t @ ''-'' @ issued_date t;
          g0 = (case map_of acc key of
                  None \<Rightarrow> \<lparr>mr_first = t, mr_pax = 0, mr_net_amount = 0, mr_date_change = 0,
                           mr_commission = 0, mr_names = []\<rparr>
                | Some g \<Rightarrow> g);
          g1 = g0\<lparr>mr_pax := mr_pax g0 + 1,
                  mr_net_amount := mr_net_amount g0 + net_amount t,
                  mr_date_change := mr_date_change g0 + date_change t,
                  mr_commission := mr_commission g0 + commission t,
                  mr_names := (if name t \<in> set (mr_names g0) then mr_names g0
                               else mr_names g0 @ [name t])\<rparr>
      in upsert acc key g1)"

definition mergedData :: "ticket list \<Rightarrow> (string \<times> mergedRow) list" where
  "mergedData ts = foldl mergeStep [] ts"

definition exportToPdf :: "int \<Rightarrow> (string \<Rightarrow> int option) \<Rightarrow> ticket list \<Rightarrow> settlement list \<Rightarrow> bool
    \<Rightarrow> string \<Rightarrow> string \<Rightarrow> reportFigures option" where
  "exportToPdf tz fb allTickets allSettlements isMerged startDateStr endDateStr =
     (case (setHours tz (parseSheetDate tz fb startDateStr) 0 0 0 0,
            setHours tz (parseSheetDate tz fb endDateStr) 23 59 59 999) of
        (Some startDate, Some endDate) \<Rightarrow>
          let inRange = filter (\<lambda>t. issuedAt tz fb t \<ge> startDate \<and> issuedAt tz fb t \<le> endDate)
                          allTickets
          in if inRange = [] then None
             else
               let ticketsToExport = sort_key (issuedAt tz fb) inRange;
                   merged = map snd (mergedData ticketsToExport);
                   totalNet =
                     (if isMerged then foldl (\<lambda>sum g. sum + mr_net_amount g) 0 merged
                      else foldl (\<lambda>sum t. sum + net_amount t) 0 ticketsToExport);
                   totalDc =
                     (if isMerged then foldl (\<lambda>sum g. sum + mr_date_change g) 0 merged
                      else foldl (\<lambda>sum t. sum + date_change t) 0 ticketsToExport);
                   totalComm =
                     (if isMerged then foldl (\<lambda>sum g. sum + mr_commission g) 0 merged
                      else foldl (\<lambda>sum t. sum + commission t) 0 ticketsToExport);
                   previous = previousDueReport tz fb allTickets allSettlements startDate;
                   grand = totalNet + totalDc + previous;
                   settlementsInRange =
                     filter (\<lambda>s. settledAt tz fb s \<ge> startDate \<and> settledAt tz fb s \<le> endDate)
                       allSettlements;
                   settled = foldl (\<lambda>sum s. sum + amount_paid s) 0 settlementsInRange
               in Some \<lparr>totalNetAmount = totalNet, totalDateChange = totalDc,
                        totalCommission = totalComm, previousEndOfMonthDue = previous,
                        grandTotal = grand, totalSettlements = settled,
                        amountToPay = grand - (totalComm + settled)\<rparr>
      | _ \<Rightarrow> None)"

text \<open>\<open>updateSettlementDashboard\<close>: the figures behind the three dashboard cards.\<close>

record dashboardFigures =
  revenueThisMonth :: int
  commissionThisMonth :: int
  extraFareThisMonth :: int
  totalSettlementsThisMonth :: int
  carriedOver :: int
  totalOutstandingRevenue :: int
  endOfMonthSettlement :: int
  totalProfitThisMonth :: int

definition updateSettlementDashboard :: "int \<Rightarrow> (string \<Rightarrow> int option) \<Rightarrow> ticket list
    \<Rightarrow> settlement list \<Rightarrow> int \<Rightarrow> dashboardFigures" where
  "updateSettlementDashboard tz fb allTickets allSettlements now =
     (let currentMonth = getMonth tz now;
          currentYear = getFullYear tz now;
          previous = previousDueDashboard tz fb allTickets allSettlements now;
          ticketsThisMonth =
            filter (\<lambda>t. getMonth tz (issuedAt tz fb t) = currentMonth
                       \<and> getFullYear tz (issuedAt tz fb t) = currentYear \<and> notFullRefund t)
              allTickets;
          revenue = foldl (\<lambda>sum t. sum + net_amount t + date_change t) 0 ticketsThisMonth;
          comm = foldl (\<lambda>sum t. sum + commission t) 0 ticketsThisMonth;
          extra = foldl (\<lambda>sum t. sum + extra_fare t) 0 ticketsThisMonth;
          settlementsThisMonth =
            filter (\<lambda>s. getMonth tz (settledAt tz fb s) = currentMonth
                       \<and> getFullYear tz (settledAt tz fb s) = currentYear) allSettlements;
          settled = foldl (\<lambda>sum s. sum + amount_paid s) 0 settlementsThisMonth;
          outstanding = (revenue + previous) - settled
      in \<lparr>revenueThisMonth = revenue, commissionThisMonth = comm,
          extraFareThisMonth = extra, totalSettlementsThisMonth = settled,
          carriedOver = previous, totalOutstandingRevenue = outstanding,
          endOfMonthSettlement = outstanding - comm,
          totalProfitThisMonth = comm + extra\<rparr>)"

text \<open>
  Example rows: a fully refunded and a cancelled ticket of November 2025, one ticket each
  of October and September, and a settlement in November and in October.
\<close>

definition emptySettlement :: settlement where
  "emptySettlement =
     \<lparr>settlement_date = [], amount_paid = 0, st_payment_method = [], transaction_id = [],
      st_status = [], st_notes = [], st_rowIndex = 0\<rparr>"

definition sampleTickets :: "ticket list" where
  "sampleTickets =
     [emptyTicket\<lparr>issued_date := ''11/15/2025'', name := ''A'', date_change := 5000,
                  remarks := ''Full Refund on 11/20/2025'', rowIndex := 2\<rparr>,
      emptyTicket\<lparr>issued_date := ''11/16/2025'', name := ''B'', net_amount := 20000,
                  commission := 1000,
                  remarks := ''Canceled on 11/20/2025 with 50,000 refund'', rowIndex := 3\<rparr>,
      emptyTicket\<lparr>issued_date := ''10/10/2025'', name := ''C'', net_amount := 70000,
                  commission := 3000, rowIndex := 4\<rparr>,
      emptyTicket\<lparr>issued_date := ''09/05/2025'', name := ''D'', net_amount := 30000,
                  commission := 2000, rowIndex := 5\<rparr>]"

definition sampleSettlements :: "settlement list" where
  "sampleSettlements =
     [emptySettlement\<lparr>settlement_date := ''20-Nov-2025'', amount_paid := 4000, st_rowIndex := 2\<rparr>,
      emptySettlement\<lparr>settlement_date := ''20-Oct-2025'', amount_paid := 6000, st_rowIndex := 3\<rparr>]"

text \<open>
  The revenue line of the report (\<open>totalNetAmount + totalDateChange\<close>), and the notions
  the statements about the balance are written in: the revenue of a list of tickets, a
  ticket issued within a period, and the specification's active tickets.
\<close>

definition reportRevenue :: "int \<Rightarrow> (string \<Rightarrow> int option) \<Rightarrow> ticket list \<Rightarrow> settlement list \<Rightarrow> bool
    \<Rightarrow> string \<Rightarrow> string \<Rightarrow> int option" where
  "reportRevenue tz fb allTickets allSettlements isMerged startDateStr endDateStr =
     map_option (\<lambda>fig. totalNetAmount fig + totalDateChange fig)
       (exportToPdf tz fb allTickets allSettlements isMerged startDateStr endDateStr)"

definition revenueOver :: "ticket list \<Rightarrow> int" where
  "revenueOver ts = sum_list (map (\<lambda>t. net_amount t + date_change t) ts)"

definition issuedBetween :: "int \<Rightarrow> (string \<Rightarrow> int option) \<Rightarrow> int \<Rightarrow> int \<Rightarrow> ticket \<Rightarrow> bool" where
  "issuedBetween tz fb s e t = (s \<le> issuedAt tz fb t \<and> issuedAt tz fb t \<le> e)"

definition issuedInMonthOf :: "int \<Rightarrow> (string \<Rightarrow> int option) \<Rightarrow> int \<Rightarrow> ticket \<Rightarrow> bool" where
  "issuedInMonthOf tz fb now t =
     (getFullYear tz (issuedAt tz fb t) = getFullYear tz now
      \<and> getMonth tz (issuedAt tz fb t) = getMonth tz now)"

definition claimedRevenue :: "(ticket \<Rightarrow> bool) \<Rightarrow> ticket list \<Rightarrow> int" where
  "claimedRevenue inPeriod ts = revenueOver (filter (\<lambda>t. activeTicket t \<and> inPeriod t) ts)"

subsection \<open>Updating the tickets of a PNR (manage)\<close>










text \<open>
  The ticket sheet is the list of its data rows: row \<open>i\<close> of the list has row index
  \<open>i + 2\<close>.  A written row is a ticket record.  The events record the requests sent and
  the toasts shown.
\<close>

record ticketState =
  allTickets :: "ticket list"
  ticketSheet :: "ticket list"
  historySheet :: "string list list"
  ticketCached :: bool
  historyCached :: bool






























section \<open>Properties\<close>

subsection \<open>Strings\<close>

lemma str_includes_sublist: "str_includes s sub \<longleftrightarrow> sublist sub s"
  by (induction s) (auto simp: sublist_Cons_right)

subsection \<open>Calendar arithmetic\<close>

lemma div_bounds: "0 < k \<Longrightarrow> k * (a div k) \<le> a \<and> a < k * (a div k) + k" for a k :: int
  using mult_div_mod_eq [of k a] pos_mod_sign [of k a] pos_mod_bound [of k a] by linarith

lemma div_step:
  fixes a k :: int
  assumes "1 < k"
  shows "(a + 1) div k - a div k = (if (a + 1) mod k = 0 then 1 else 0)"
proof -
  define q r where "q = a div k" and "r = a mod k"
  have a: "a = k * q + r" and r: "0 \<le> r" "r < k"
    using assms by (simp_all add: q_def r_def)
  show ?thesis
  proof (cases "r + 1 < k")
    case True
    have "a + 1 = k * q + (r + 1)" using a by simp
    then have "(a + 1) div k = q" "(a + 1) mod k = r + 1"
      using True r int_div_pos_eq [of "a + 1" k q "r + 1"] int_mod_pos_eq [of "a + 1" k q "r + 1"]
      by simp_all
    then show ?thesis using r by (simp add: q_def)
  next
    case False
    then have "a + 1 = k * (q + 1) + 0" using a r by (simp add: algebra_simps)
    then have "(a + 1) div k = q + 1" "(a + 1) mod k = 0"
      using assms int_div_pos_eq [of "a + 1" k "q + 1" 0] int_mod_pos_eq [of "a + 1" k "q + 1" 0]
      by simp_all
    then show ?thesis by (simp add: q_def)
  qed
qed

lemma mod_shift: "(y - k * c) mod k = y mod k" for y k c :: int
proof -
  have "(y - k * c) mod k = (y - (k * c) mod k) mod k"
    by (rule mod_diff_right_eq [symmetric])
  then show ?thesis by simp
qed

lemma DayFromYear_Suc: "DayFromYear (y + 1) = DayFromYear y + DaysInYear y"
proof -
  have m4: "(y - 1968) mod 4 = y mod 4" using mod_shift [of y 4 492] by simp
  have m100: "(y - 1900) mod 100 = y mod 100" using mod_shift [of y 100 19] by simp
  have m400: "(y - 1600) mod 400 = y mod 400" using mod_shift [of y 400 4] by simp
  have i4: "y mod 4 = 0" if "y mod 100 = 0"
  proof -
    have "(100::int) dvd y" using that by (simp add: mod_eq_0_iff_dvd)
    moreover have "(4::int) dvd 100" by simp
    ultimately have "(4::int) dvd y" by (rule dvd_trans [rotated])
    then show ?thesis by (simp add: mod_eq_0_iff_dvd)
  qed
  have i100: "y mod 100 = 0" if "y mod 400 = 0"
  proof -
    have "(400::int) dvd y" using that by (simp add: mod_eq_0_iff_dvd)
    moreover have "(100::int) dvd 400" by simp
    ultimately have "(100::int) dvd y" by (rule dvd_trans [rotated])
    then show ?thesis by (simp add: mod_eq_0_iff_dvd)
  qed
  have a: "(y - 1968) div 4 - (y - 1969) div 4 = (if y mod 4 = 0 then 1 else 0)"
    using div_step [of 4 "y - 1969"] m4 by simp
  have b: "(y - 1900) div 100 - (y - 1901) div 100 = (if y mod 100 = 0 then 1 else 0)"
    using div_step [of 100 "y - 1901"] m100 by simp
  have c: "(y - 1600) div 400 - (y - 1601) div 400 = (if y mod 400 = 0 then 1 else 0)"
    using div_step [of 400 "y - 1601"] m400 by simp
  have "DayFromYear (y + 1) - DayFromYear y =
        365 + ((y - 1968) div 4 - (y - 1969) div 4) - ((y - 1900) div 100 - (y - 1901) div 100)
        + ((y - 1600) div 400 - (y - 1601) div 400)"
    by (simp add: DayFromYear_def algebra_simps)
  also have "\<dots> = DaysInYear y"
    unfolding a b c DaysInYear_def using i4 i100 by auto
  finally show ?thesis by simp
qed

lemma DayFromYear_bounds:
  "400 * DayFromYear y \<le> 146097 * (y - 1970) + 589"
  "146097 * (y - 1970) - 506 \<le> 400 * DayFromYear y"
proof -
  define A B C where "A = (y - 1969) div 4" and "B = (y - 1901) div 100"
    and "C = (y - 1601) div 400"
  have a: "4 * A \<le> y - 1969" "y - 1969 < 4 * A + 4"
    unfolding A_def using div_bounds [of 4 "y - 1969"] by simp_all
  have b: "100 * B \<le> y - 1901" "y - 1901 < 100 * B + 100"
    unfolding B_def using div_bounds [of 100 "y - 1901"] by simp_all
  have c: "400 * C \<le> y - 1601" "y - 1601 < 400 * C + 400"
    unfolding C_def using div_bounds [of 400 "y - 1601"] by simp_all
  have d: "DayFromYear y = 365 * (y - 1970) + A - B + C"
    by (simp add: DayFromYear_def A_def B_def C_def)
  show "400 * DayFromYear y \<le> 146097 * (y - 1970) + 589"
    unfolding d using a b c by (simp add: algebra_simps)
  show "146097 * (y - 1970) - 506 \<le> 400 * DayFromYear y"
    unfolding d using a b c by (simp add: algebra_simps)
qed

lemma DaysInYear_ge: "365 \<le> DaysInYear y"
  by (simp add: DaysInYear_def)

lemma DayFromYear_mono_aux: "DayFromYear y + 365 * int n \<le> DayFromYear (y + int n)"
proof (induction n)
  case 0
  then show ?case by simp
next
  case (Suc n)
  have "DayFromYear (y + int (Suc n)) = DayFromYear (y + int n) + DaysInYear (y + int n)"
    using DayFromYear_Suc [of "y + int n"] by (simp add: algebra_simps)
  with Suc DaysInYear_ge [of "y + int n"] show ?case by (simp add: algebra_simps)
qed

lemma DayFromYear_mono: "y \<le> y' \<Longrightarrow> DayFromYear y + 365 * (y' - y) \<le> DayFromYear y'"
  using DayFromYear_mono_aux [of y "nat (y' - y)"] by simp

lemma YearFromDay_spec:
  "DayFromYear (YearFromDay d) \<le> d \<and> d < DayFromYear (YearFromDay d + 1)"
proof -
  define y0 where "y0 = 1970 + (400 * d) div 146097"
  have e: "146097 * (y0 - 1970) \<le> 400 * d" "400 * d < 146097 * (y0 - 1970) + 146097"
    unfolding y0_def using div_bounds [of 146097 "400 * d"] by simp_all
  have lo: "DayFromYear (y0 - 1) \<le> d"
    using DayFromYear_bounds(1) [of "y0 - 1"] e by (simp add: algebra_simps)
  have hi: "d < DayFromYear (y0 + 2)"
    using DayFromYear_bounds(2) [of "y0 + 2"] e by (simp add: algebra_simps)
  have s: "y0 + 1 + 1 = y0 + 2" by simp
  show ?thesis
    unfolding YearFromDay_def y0_def [symmetric] Let_def using lo hi by (auto simp: s)
qed

lemma year_unique:
  assumes "DayFromYear y \<le> d" "d < DayFromYear (y + 1)"
    and "DayFromYear y' \<le> d" "d < DayFromYear (y' + 1)"
  shows "y = y'"
proof (rule ccontr)
  assume "y \<noteq> y'"
  then consider "y + 1 \<le> y'" | "y' + 1 \<le> y" by linarith
  then show False
  proof cases
    case 1
    from DayFromYear_mono [OF 1] 1 assms show False by (simp add: algebra_simps)
  next
    case 2
    from DayFromYear_mono [OF 2] 2 assms show False by (simp add: algebra_simps)
  qed
qed

lemma YearFromDay_roundtrip:
  assumes "0 \<le> k" "k < DaysInYear y"
  shows "YearFromDay (DayFromYear y + k) = y"
proof -
  have "DayFromYear y \<le> DayFromYear y + k" "DayFromYear y + k < DayFromYear (y + 1)"
    using assms by (simp_all add: DayFromYear_Suc)
  with YearFromDay_spec [of "DayFromYear y + k"] show ?thesis
    using year_unique by blast
qed

lemma month_cases:
  fixes m :: int
  assumes "0 \<le> m" "m < 12"
  shows "m = 0 \<or> m = 1 \<or> m = 2 \<or> m = 3 \<or> m = 4 \<or> m = 5 \<or> m = 6 \<or> m = 7
    \<or> m = 8 \<or> m = 9 \<or> m = 10 \<or> m = 11"
proof -
  have "m \<in> set [0..11]" using assms by simp
  also have "[0..11::int] = [0, 1, 2, 3, 4, 5, 6, 7, 8, 9, 10, 11]" by (simp add: upto_rec1)
  finally show ?thesis by simp
qed

lemma month_table:
  assumes "0 \<le> m" "m < 12" "1 \<le> dt" "dt \<le> monthLength L m" "L = 0 \<or> L = 1"
  shows "0 \<le> monthStart L m + dt - 1 \<and> monthStart L m + dt - 1 < 365 + L
         \<and> monthOfYearDay L (monthStart L m + dt - 1) = m"
  using month_cases [OF assms(1,2)] assms(3,4,5)
  by (elim disjE) (simp_all add: monthStart_def monthLength_def monthOfYearDay_def)

lemma InLeapYear_cases:
  "InLeapYear y = 0 \<and> DaysInYear y = 365 \<or> InLeapYear y = 1 \<and> DaysInYear y = 366"
  by (simp add: InLeapYear_def DaysInYear_def)

lemma MakeDay_simple: "0 \<le> m \<Longrightarrow> m < 12 \<Longrightarrow>
    MakeDay y m dt = DayFromYear y + monthStart (InLeapYear y) m + dt - 1"
  by (simp add: MakeDay_def)

lemma civil_roundtrip:
  assumes "0 \<le> m" "m < 12" "1 \<le> dt" "dt \<le> daysInMonth y m"
  shows "YearFromDay (MakeDay y m dt) = y"
    and "MonthFromDay (MakeDay y m dt) = m"
    and "DateFromDay (MakeDay y m dt) = dt"
proof -
  let ?L = "InLeapYear y"
  let ?w = "monthStart ?L m + dt - 1"
  have L: "?L = 0 \<or> ?L = 1" and diy: "DaysInYear y = 365 + ?L"
    using InLeapYear_cases [of y] by auto
  have d: "MakeDay y m dt = DayFromYear y + ?w"
    using assms by (simp add: MakeDay_simple)
  have t: "0 \<le> ?w \<and> ?w < 365 + ?L \<and> monthOfYearDay ?L ?w = m"
    using assms L by (intro month_table) (simp_all add: daysInMonth_def)
  show y: "YearFromDay (MakeDay y m dt) = y"
    unfolding d using t diy by (intro YearFromDay_roundtrip) simp_all
  show mo: "MonthFromDay (MakeDay y m dt) = m"
    unfolding MonthFromDay_def y Let_def unfolding d using t by simp
  show "DateFromDay (MakeDay y m dt) = dt"
    unfolding DateFromDay_def y mo Let_def unfolding d by simp
qed


subsection \<open>Date parsing\<close>

lemmas str_ev = trim_def isSpace_def isDateSep_def parseInt_def isDigit_def digitsValue_def
  digitVal_def monthMap_def toUpperCase_def toUpperChar_def toLowerCase_def toLowerChar_def

lemmas cal_ev = MakeDay_def DayFromYear_def InLeapYear_def DaysInYear_def monthStart_def
  YearFromDay_def MonthFromDay_def DateFromDay_def monthOfYearDay_def Let_def

lemma TimeClip_day:
  assumes "\<bar>tz\<bar> < msPerDay" "\<bar>D\<bar> \<le> 99999999"
  shows "TimeClip (D * msPerDay - tz) = Some (D * msPerDay - tz)"
  using assms by (simp add: TimeClip_def msPerDay_def abs_if split: if_splits)

lemma localDay_day: "localDay tz (D * msPerDay - tz) = D"
  by (simp add: localDay_def msPerDay_def)

lemma daysInMonth_le: "daysInMonth y m \<le> 31"
  by (simp add: daysInMonth_def monthLength_def InLeapYear_def)

lemma MakeDay_range:
  assumes "0 \<le> m" "m < 12" "1 \<le> d" "d \<le> daysInMonth y m" "1900 < y" "y \<le> 9999"
  shows "\<bar>MakeDay y m d\<bar> \<le> 99999999"
proof -
  let ?L = "InLeapYear y"
  have L: "?L = 0 \<or> ?L = 1" using InLeapYear_cases [of y] by auto
  have t: "0 \<le> monthStart ?L m + d - 1 \<and> monthStart ?L m + d - 1 < 365 + ?L"
    using month_table [of m d ?L] assms L by (simp add: daysInMonth_def)
  have "400 * DayFromYear y \<le> 146097 * (y - 1970) + 589"
    "146097 * (y - 1970) - 506 \<le> 400 * DayFromYear y"
    by (rule DayFromYear_bounds)+
  then have "- 30000 \<le> DayFromYear y" "DayFromYear y \<le> 3000000"
    using assms(5,6) by (simp_all add: algebra_simps)
  then show ?thesis
    using t L assms(1,2) by (auto simp: MakeDay_simple abs_if)
qed

lemma newDate_valid:
  assumes "\<bar>tz\<bar> < msPerDay" "0 \<le> m" "m < 12" "1 \<le> d" "d \<le> daysInMonth y m"
    "1900 < y" "y \<le> 9999"
  shows "newDate tz y m d = Some (MakeDay y m d * msPerDay - tz)"
    and "getFullYear tz (MakeDay y m d * msPerDay - tz) = y"
    and "getMonth tz (MakeDay y m d * msPerDay - tz) = m"
    and "getDate tz (MakeDay y m d * msPerDay - tz) = d"
proof -
  have "fullYear y = y" using assms(6) by (simp add: fullYear_def)
  then show "newDate tz y m d = Some (MakeDay y m d * msPerDay - tz)"
    using TimeClip_day [OF assms(1) MakeDay_range [OF assms(2-7)]] by (simp add: newDate_def)
  show "getFullYear tz (MakeDay y m d * msPerDay - tz) = y"
    "getMonth tz (MakeDay y m d * msPerDay - tz) = m"
    "getDate tz (MakeDay y m d * msPerDay - tz) = d"
    using civil_roundtrip [OF assms(2-5)]
    by (simp_all add: getFullYear_def getMonth_def getDate_def localDay_day)
qed

lemma digit_cases:
  fixes k :: int
  assumes "0 \<le> k" "k < 10"
  shows "k = 0 \<or> k = 1 \<or> k = 2 \<or> k = 3 \<or> k = 4 \<or> k = 5 \<or> k = 6 \<or> k = 7 \<or> k = 8 \<or> k = 9"
proof -
  have "k \<in> set [0..9]" using assms by simp
  also have "[0..9::int] = [0, 1, 2, 3, 4, 5, 6, 7, 8, 9]" by (simp add: upto_rec1)
  finally show ?thesis by simp
qed

lemma digitChar_props:
  assumes "0 \<le> k" "k < 10"
  shows "isDigit (digitChar k)" "digitVal (digitChar k) = k" "\<not> isSpace (digitChar k)"
    "\<not> isDateSep (digitChar k)" "digitChar k \<noteq> CHR ''-''" "digitChar k \<noteq> CHR ''+''"
    "digitChar k \<noteq> CHR '':''" "digitChar k \<noteq> CHR ''/''"
  using digit_cases [OF assms]
  by (elim disjE; simp add: digitChar_def isDigit_def digitVal_def isSpace_def isDateSep_def)+

lemma two_digits:
  fixes n :: int
  assumes "0 \<le> n" "n < 100"
  obtains a b where "0 \<le> a" "a < 10" "0 \<le> b" "b < 10" "n = 10 * a + b"
    "twoDigits n = [digitChar a, digitChar b]"
proof
  show "0 \<le> n div 10" "n div 10 < 10" "0 \<le> n mod 10" "n mod 10 < 10"
    using assms by simp_all
  show "n = 10 * (n div 10) + n mod 10" by simp
  show "twoDigits n = [digitChar (n div 10), digitChar (n mod 10)]" by (simp add: twoDigits_def)
qed

lemma four_digits:
  fixes n :: int
  assumes "0 \<le> n" "n < 10000"
  obtains a b c d where "0 \<le> a" "a < 10" "0 \<le> b" "b < 10" "0 \<le> c" "c < 10" "0 \<le> d" "d < 10"
    "n = 1000 * a + 100 * b + 10 * c + d"
    "fourDigits n = [digitChar a, digitChar b, digitChar c, digitChar d]"
proof -
  have h: "0 \<le> n div 100" "n div 100 < 100" "0 \<le> n mod 100" "n mod 100 < 100"
    using assms by simp_all
  obtain a b where ab: "0 \<le> a" "a < 10" "0 \<le> b" "b < 10" "n div 100 = 10 * a + b"
    "twoDigits (n div 100) = [digitChar a, digitChar b]"
    using two_digits [OF h(1,2)] by blast
  obtain c d where cd: "0 \<le> c" "c < 10" "0 \<le> d" "d < 10" "n mod 100 = 10 * c + d"
    "twoDigits (n mod 100) = [digitChar c, digitChar d]"
    using two_digits [OF h(3,4)] by blast
  have "n = 100 * (n div 100) + n mod 100" by simp
  then have "n = 1000 * a + 100 * b + 10 * c + d" using ab(5) cd(5) by simp
  then show ?thesis
    using that [OF ab(1-4) cd(1-4)] ab(6) cd(6) by (simp add: fourDigits_def)
qed


lemma trim_id:
  assumes "s \<noteq> []" "\<not> isSpace (hd s)" "\<not> isSpace (last s)"
  shows "trim s = s"
proof -
  have "dropWhile isSpace s = s" using assms(1,2) by (cases s) simp_all
  moreover have "dropWhile isSpace (rev s) = rev s"
    using assms(1,3) by (cases s rule: rev_cases) simp_all
  ultimately show ?thesis by (simp add: trim_def)
qed

lemma month_abbrev:
  assumes "0 \<le> m" "m < 12"
  shows "parseInt (monthAbbrev ! nat m) = None"
    and "map_of monthMap (toUpperCase (monthAbbrev ! nat m)) = Some m"
    and "splitOn isDateSep (monthAbbrev ! nat m @ CHR ''-'' # r) = (monthAbbrev ! nat m) # splitOn isDateSep r"
  using month_cases [OF assms]
  by (elim disjE; simp add: monthAbbrev_def str_ev)+

lemma validatedDate_textMDY:
  assumes "\<bar>tz\<bar> < msPerDay" "0 \<le> m" "m < 12" "1 \<le> d" "d \<le> daysInMonth y m"
    "1900 < y" "y \<le> 9999"
  shows "validatedDate tz (textMDY y m d) = Some (MakeDay y m d * msPerDay - tz)"
    and "trim (textMDY y m d) = textMDY y m d" and "textMDY y m d \<noteq> []"
proof -
  have d31: "d \<le> 31" using assms(5) daysInMonth_le [of y m] by linarith
  have db: "0 \<le> d" "d < 100" using assms(4) d31 by simp_all
  have yb: "0 \<le> y" "y < 10000" using assms(6,7) by simp_all
  have mb: "0 \<le> m + 1" "m + 1 < 100" using assms(2,3) by simp_all
  obtain a b where ab: "0 \<le> a" "a < 10" "0 \<le> b" "b < 10" "m + 1 = 10 * a + b"
    "twoDigits (m + 1) = [digitChar a, digitChar b]"
    using two_digits [OF mb] by blast
  obtain c e where ce: "0 \<le> c" "c < 10" "0 \<le> e" "e < 10" "d = 10 * c + e"
    "twoDigits d = [digitChar c, digitChar e]"
    using two_digits [OF db] by blast
  obtain p q r s where y: "0 \<le> p" "p < 10" "0 \<le> q" "q < 10" "0 \<le> r" "r < 10" "0 \<le> s" "s < 10"
    "y = 1000 * p + 100 * q + 10 * r + s"
    "fourDigits y = [digitChar p, digitChar q, digitChar r, digitChar s]"
    using four_digits [OF yb] by blast
  note dc = digitChar_props [OF ab(1,2)] digitChar_props [OF ab(3,4)]
    digitChar_props [OF ce(1,2)] digitChar_props [OF ce(3,4)]
    digitChar_props [OF y(1,2)] digitChar_props [OF y(3,4)]
    digitChar_props [OF y(5,6)] digitChar_props [OF y(7,8)]
  have t: "textMDY y m d = [digitChar a, digitChar b, CHR ''/'', digitChar c, digitChar e,
      CHR ''/'', digitChar p, digitChar q, digitChar r, digitChar s]"
    by (simp add: textMDY_def ab(6) ce(6) y(10))
  have sp: "splitOn isDateSep (textMDY y m d)
      = [[digitChar a, digitChar b], [digitChar c, digitChar e],
         [digitChar p, digitChar q, digitChar r, digitChar s]]"
    unfolding t by (simp add: dc isDateSep_def)
  have pi: "parseInt [digitChar a, digitChar b] = Some (m + 1)"
    "parseInt [digitChar c, digitChar e] = Some d"
    "parseInt [digitChar p, digitChar q, digitChar r, digitChar s] = Some y"
    by (simp_all add: parseInt_def digitsValue_def dc ab(5) ce(5) y(9))
  show "validatedDate tz (textMDY y m d) = Some (MakeDay y m d * msPerDay - tz)"
    using assms(2-4,6) d31 newDate_valid [OF assms(1-7)]
    by (simp add: validatedDate_def sp pi)
  show "trim (textMDY y m d) = textMDY y m d"
    unfolding t by (rule trim_id) (simp_all add: dc)
  show "textMDY y m d \<noteq> []" by (simp add: t)
qed

lemma validatedDate_textDMonY:
  assumes "\<bar>tz\<bar> < msPerDay" "0 \<le> m" "m < 12" "1 \<le> d" "d \<le> daysInMonth y m"
    "1900 < y" "y \<le> 9999"
  shows "validatedDate tz (textDMonY y m d) = Some (MakeDay y m d * msPerDay - tz)"
    and "trim (textDMonY y m d) = textDMonY y m d" and "textDMonY y m d \<noteq> []"
proof -
  have d31: "d \<le> 31" using assms(5) daysInMonth_le [of y m] by linarith
  have db: "0 \<le> d" "d < 100" using assms(4) d31 by simp_all
  have yb: "0 \<le> y" "y < 10000" using assms(6,7) by simp_all
  obtain c e where ce: "0 \<le> c" "c < 10" "0 \<le> e" "e < 10" "d = 10 * c + e"
    "twoDigits d = [digitChar c, digitChar e]"
    using two_digits [OF db] by blast
  obtain p q r s where y: "0 \<le> p" "p < 10" "0 \<le> q" "q < 10" "0 \<le> r" "r < 10" "0 \<le> s" "s < 10"
    "y = 1000 * p + 100 * q + 10 * r + s"
    "fourDigits y = [digitChar p, digitChar q, digitChar r, digitChar s]"
    using four_digits [OF yb] by blast
  note dc = digitChar_props [OF ce(1,2)] digitChar_props [OF ce(3,4)]
    digitChar_props [OF y(1,2)] digitChar_props [OF y(3,4)]
    digitChar_props [OF y(5,6)] digitChar_props [OF y(7,8)]
  let ?mon = "monthAbbrev ! nat m"
  have t: "textDMonY y m d = [digitChar c, digitChar e, CHR ''-''] @ ?mon
      @ [CHR ''-'', digitChar p, digitChar q, digitChar r, digitChar s]"
    by (simp add: textDMonY_def ce(6) y(10))
  have sp: "splitOn isDateSep (textDMonY y m d)
      = [[digitChar c, digitChar e], ?mon, [digitChar p, digitChar q, digitChar r, digitChar s]]"
    unfolding t by (simp add: dc month_abbrev(3) [OF assms(2,3)]) (simp add: isDateSep_def)
  have pi: "parseInt [digitChar c, digitChar e] = Some d"
    "parseInt [digitChar p, digitChar q, digitChar r, digitChar s] = Some y"
    by (simp_all add: parseInt_def digitsValue_def dc ce(5) y(9))
  show "validatedDate tz (textDMonY y m d) = Some (MakeDay y m d * msPerDay - tz)"
    using assms(2-4,6) d31 newDate_valid [OF assms(1-7)] month_abbrev(1,2) [OF assms(2,3)]
    by (simp add: validatedDate_def sp pi)
  show "trim (textDMonY y m d) = textDMonY y m d"
    unfolding t by (rule trim_id) (simp_all add: dc)
  show "textDMonY y m d \<noteq> []" by (simp add: t)
qed

lemma validatedDate_garbage:
  "validatedDate tz ''garbage'' = None" "validatedDate tz ''nonsense'' = None"
  "validatedDate tz ''13/45/2025'' = None"
  by (simp_all add: validatedDate_def str_ev)

lemma MakeDay_feb30: "MakeDay 2025 1 30 = 20149"
  by (simp add: cal_ev)

lemma validatedDate_feb30:
  assumes "\<bar>tz\<bar> < msPerDay"
  shows "validatedDate tz ''02/30/2025'' = None"
proof -
  have n: "newDate tz 2025 1 30 = Some (20149 * msPerDay - tz)"
    using TimeClip_day [OF assms, of 20149] by (simp add: newDate_def fullYear_def MakeDay_feb30)
  have g: "getMonth tz (20149 * msPerDay - tz) = 2"
    unfolding getMonth_def localDay_day by (simp add: cal_ev)
  show ?thesis
    by (simp add: validatedDate_def str_ev n g)
qed


text \<open>
  Both spellings of a valid calendar date of the years 1901 to 9999 parse to the local
  midnight of that day, whatever the engine's parser does; the empty string gives the
  epoch; and a string that the format check and the engine both reject gives the epoch.
\<close>

lemma parseSheetDate_dateTexts:
  assumes "\<bar>tz\<bar> < msPerDay" "0 \<le> m" "m < 12" "1 \<le> d" "d \<le> daysInMonth y m"
    "1900 < y" "y \<le> 9999" "s \<in> set (dateTexts y m d)"
  shows "parseSheetDate tz fb s = MakeDay y m d * msPerDay - tz" and "s \<noteq> []"
  using assms(8) validatedDate_textMDY [OF assms(1-7)] validatedDate_textDMonY [OF assms(1-7)]
  by (auto simp: dateTexts_def parseSheetDate_def)

lemma parseSheetDate_empty: "parseSheetDate tz fb [] = 0"
  by (simp add: parseSheetDate_def)

lemma parseSheetDate_rejected:
  assumes "validatedDate tz (trim s) = None" "fb (trim s) = None"
  shows "parseSheetDate tz fb s = 0"
  using assms by (simp add: parseSheetDate_def)

lemma lenientDateParse_words:
  "lenientDateParse tz ''garbage'' = None" "lenientDateParse tz ''nonsense'' = None"
  "lenientDateParse tz ''13/45/2025'' = None"
  by (simp_all add: lenientDateParse_def isDigit_def digitsValue_def digitVal_def)

lemma parseSheetDate_examples:
  "textMDY 2025 10 12 = ''11/12/2025''" "textDMonY 2025 10 12 = ''12-Nov-2025''"
  "parseSheetDate 23400000 (lenientDateParse 23400000) ''11/12/2025'' = 1762882200000"
  "parseSheetDate 23400000 (lenientDateParse 23400000) ''12-Nov-2025'' = 1762882200000"
  "parseSheetDate 23400000 (lenientDateParse 23400000) ''garbage'' = 0"
  "parseSheetDate 23400000 (lenientDateParse 23400000) ''nonsense'' = 0"
  "parseSheetDate 23400000 (lenientDateParse 23400000) ''13/45/2025'' = 0"
proof -
  show "textMDY 2025 10 12 = ''11/12/2025''" "textDMonY 2025 10 12 = ''12-Nov-2025''"
    by (simp_all add: textMDY_def textDMonY_def twoDigits_def fourDigits_def digitChar_def
        monthAbbrev_def)
  show "parseSheetDate 23400000 (lenientDateParse 23400000) ''11/12/2025'' = 1762882200000"
    "parseSheetDate 23400000 (lenientDateParse 23400000) ''12-Nov-2025'' = 1762882200000"
    by (simp_all add: parseSheetDate_def validatedDate_def newDate_def TimeClip_def
        fullYear_def getFullYear_def getMonth_def getDate_def localDay_def msPerDay_def
        str_ev cal_ev)
  show "parseSheetDate 23400000 (lenientDateParse 23400000) ''garbage'' = 0"
    "parseSheetDate 23400000 (lenientDateParse 23400000) ''nonsense'' = 0"
    "parseSheetDate 23400000 (lenientDateParse 23400000) ''13/45/2025'' = 0"
    by (simp_all add: parseSheetDate_def validatedDate_garbage lenientDateParse_words trim_def
        isSpace_def)
qed

text \<open>
  C2. The round trip of the two formats holds, and the empty string and the words
  \<open>garbage\<close> and \<open>nonsense\<close> give the epoch.  \<open>02/30/2025\<close> does not: the format check
  builds the date, reads back 2 March and rejects the string, and the function then
  hands the same string to the engine's parser, which in V8 lets 30 February run over
  into March.  The function returns 2 March 2025 where the contract asks for the epoch.
\<close>

theorem parseSheetDate_feb30_not_epoch:
  "validatedDate 0 ''02/30/2025'' = None
   \<and> lenientDateParse 0 ''02/30/2025'' = Some (MakeDay 2025 2 2 * msPerDay)
   \<and> parseSheetDate 0 (lenientDateParse 0) ''02/30/2025'' = 1740873600000
   \<and> parseSheetDate 0 (lenientDateParse 0) ''02/30/2025'' \<noteq> 0"
proof -
  have v: "validatedDate 0 ''02/30/2025'' = None"
    by (rule validatedDate_feb30) (simp add: msPerDay_def)
  have l: "lenientDateParse 0 ''02/30/2025'' = Some 1740873600000"
    by (simp add: lenientDateParse_def isDigit_def digitsValue_def digitVal_def TimeClip_def
        msPerDay_def cal_ev)
  have m: "MakeDay 2025 2 2 * msPerDay = 1740873600000"
    by (simp add: msPerDay_def cal_ev)
  have p: "parseSheetDate 0 (lenientDateParse 0) ''02/30/2025'' = 1740873600000"
    by (simp add: parseSheetDate_def trim_def isSpace_def v l)
  show ?thesis by (simp add: v l m p)
qed

subsection \<open>Bookings\<close>


lemma writeRow_same:
  assumes "i \<noteq> 0"
  shows "i \<le> length (writeRow sh i v)" and "writeRow sh i v ! (i - 1) = v"
  using assms by (auto simp: writeRow_def nth_append)

lemma writeRow_other:
  assumes "i \<noteq> 0" "i \<le> length sh" "j \<noteq> i"
  shows "i \<le> length (writeRow sh j w)" and "writeRow sh j w ! (i - 1) = sh ! (i - 1)"
  using assms by (auto simp: writeRow_def nth_append)

lemma storeRows_snoc: "storeRows sh (data @ [(i, v)]) = writeRow (storeRows sh data) i v"
  by (simp add: storeRows_def)

lemma storeRows_member:
  assumes "(i, v) \<in> set data" "i \<noteq> 0" "distinct (map fst data)"
  shows "i \<le> length (storeRows sh data) \<and> storeRows sh data ! (i - 1) = v"
  using assms
proof (induction data rule: rev_induct)
  case Nil
  then show ?case by simp
next
  case (snoc x xs)
  obtain j w where x: "x = (j, w)" by (cases x)
  show ?case
  proof (cases "j = i")
    case True
    have "w = v"
    proof (rule ccontr)
      assume "w \<noteq> v"
      then have "(i, v) \<in> set xs" using snoc.prems(1) x True by auto
      then have "i \<in> set (map fst xs)" by force
      then show False using snoc.prems(3) x True by simp
    qed
    then show ?thesis
      using True x writeRow_same [OF snoc.prems(2), of "storeRows sh xs" v]
      by (simp add: storeRows_snoc)
  next
    case False
    then have "(i, v) \<in> set xs" using snoc.prems(1) x by auto
    moreover have "distinct (map fst xs)" using snoc.prems(3) by simp
    ultimately have "i \<le> length (storeRows sh xs) \<and> storeRows sh xs ! (i - 1) = v"
      using snoc.IH snoc.prems(2) by blast
    then show ?thesis
      using False x writeRow_other [OF snoc.prems(2), of "storeRows sh xs" j w]
      by (simp add: storeRows_snoc)
  qed
qed

lemma parseBookingData_member:
  "b \<in> set (parseBookingData values)
   \<longleftrightarrow> (\<exists>j. j + 1 < length values \<and> b = parseBookingRow j (values ! (j + 1)))"
proof (cases "values")
  case Nil
  then show ?thesis by (simp add: parseBookingData_def)
next
  case (Cons header rows)
  have "b \<in> set (parseBookingData values)
        \<longleftrightarrow> (\<exists>p \<in> set (enumerate 0 rows). b = parseBookingRow (fst p) (snd p))"
    by (auto simp: Cons parseBookingData_def case_prod_beta)
  also have "\<dots> \<longleftrightarrow> (\<exists>j. j < length rows \<and> b = parseBookingRow j (rows ! j))"
  proof
    assume "\<exists>p \<in> set (enumerate 0 rows). b = parseBookingRow (fst p) (snd p)"
    then show "\<exists>j. j < length rows \<and> b = parseBookingRow j (rows ! j)"
      by (auto simp: in_set_enumerate_eq)
  next
    assume "\<exists>j. j < length rows \<and> b = parseBookingRow j (rows ! j)"
    then obtain j where j: "j < length rows" "b = parseBookingRow j (rows ! j)" by blast
    then have "(j, rows ! j) \<in> set (enumerate 0 rows)" by (simp add: in_set_enumerate_eq)
    then show "\<exists>p \<in> set (enumerate 0 rows). b = parseBookingRow (fst p) (snd p)"
      using j(2) by force
  qed
  finally show ?thesis by (simp add: Cons)
qed


lemma isDigit_punct: "\<not> isDigit (CHR '':'')" "\<not> isDigit (CHR '' '')"
  by (simp_all add: isDigit_def)

lemma matchTime_one:
  assumes "0 \<le> a" "a < 10" "0 \<le> c" "c < 10" "0 \<le> e" "e < 10"
    "mark \<in> set [''PM'', ''pm'', ''AM'', ''am'']"
  shows "matchTime ([digitChar a] @ '':'' @ [digitChar c, digitChar e] @ '' '' @ mark)
         = Some ([digitChar a], [digitChar c, digitChar e], toUpperCase mark)"
  using assms(7)
  by (auto simp: matchTimeAt_def digitChar_props [OF assms(1,2)] digitChar_props [OF assms(3,4)]
      digitChar_props [OF assms(5,6)] isDigit_punct isSpace_def toUpperCase_def toUpperChar_def
      Let_def)

lemma matchTime_two:
  assumes "0 \<le> a0" "a0 < 10" "0 \<le> a" "a < 10" "0 \<le> c" "c < 10" "0 \<le> e" "e < 10"
    "mark \<in> set [''PM'', ''pm'', ''AM'', ''am'']"
  shows "matchTime ([digitChar a0, digitChar a] @ '':'' @ [digitChar c, digitChar e] @ '' '' @ mark)
         = Some ([digitChar a0, digitChar a], [digitChar c, digitChar e], toUpperCase mark)"
  using assms(9)
  by (auto simp: matchTimeAt_def digitChar_props [OF assms(1,2)] digitChar_props [OF assms(3,4)]
      digitChar_props [OF assms(5,6)] digitChar_props [OF assms(7,8)] isDigit_punct isSpace_def
      toUpperCase_def toUpperChar_def Let_def)

lemma matchTime_clockTexts:
  assumes "1 \<le> h" "h \<le> 12" "0 \<le> mi" "mi \<le> 59" "s \<in> set (clockTexts h mi pm)"
  shows "\<exists>hs ms. matchTime s = Some (hs, ms, if pm then ''PM'' else ''AM'')
                 \<and> digitsValue hs = h \<and> digitsValue ms = mi"
    and "s \<noteq> []"
proof -
  have hb: "0 \<le> h" "h < 100" and mb: "0 \<le> mi" "mi < 100" using assms(1-4) by simp_all
  obtain a0 a where h: "0 \<le> a0" "a0 < 10" "0 \<le> a" "a < 10" "h = 10 * a0 + a"
    "twoDigits h = [digitChar a0, digitChar a]"
    using two_digits [OF hb] by blast
  obtain c e where m: "0 \<le> c" "c < 10" "0 \<le> e" "e < 10" "mi = 10 * c + e"
    "twoDigits mi = [digitChar c, digitChar e]"
    using two_digits [OF mb] by blast
  from assms(5) obtain hh mark where s: "s = hh @ '':'' @ twoDigits mi @ '' '' @ mark"
    and hh: "hh \<in> set (hourTexts h)"
    and mk: "mark \<in> set (if pm then [''PM'', ''pm''] else [''AM'', ''am''])"
    by (auto simp: clockTexts_def)
  have mk4: "mark \<in> set [''PM'', ''pm'', ''AM'', ''am'']"
    using mk by (auto split: if_splits)
  have up: "toUpperCase mark = (if pm then ''PM'' else ''AM'')"
    using mk by (auto simp: toUpperCase_def toUpperChar_def split: if_splits)
  have dv2: "digitsValue [digitChar c, digitChar e] = mi"
    by (simp add: digitsValue_def digitChar_props [OF m(1,2)] digitChar_props [OF m(3,4)] m(5))
  show "s \<noteq> []" by (simp add: s)
  from hh consider (one) "h < 10" "hh = [digitChar h]" | (two) "hh = twoDigits h"
    by (auto simp: hourTexts_def split: if_splits)
  then show "\<exists>hs ms. matchTime s = Some (hs, ms, if pm then ''PM'' else ''AM'')
                 \<and> digitsValue hs = h \<and> digitsValue ms = mi"
  proof cases
    case one
    have h0: "0 \<le> h" using assms(1) by simp
    have "matchTime s = Some ([digitChar h], [digitChar c, digitChar e], toUpperCase mark)"
      unfolding s one(2) m(6) by (rule matchTime_one [OF h0 one(1) m(1-4) mk4])
    moreover have "digitsValue [digitChar h] = h"
      by (simp add: digitsValue_def digitChar_props [OF h0 one(1)])
    ultimately show ?thesis using dv2 up by simp
  next
    case two
    have "matchTime s
          = Some ([digitChar a0, digitChar a], [digitChar c, digitChar e], toUpperCase mark)"
      unfolding s two h(6) m(6) by (rule matchTime_two [OF h(1-4) m(1-4) mk4])
    moreover have "digitsValue [digitChar a0, digitChar a] = h"
      by (simp add: digitsValue_def digitChar_props [OF h(1,2)] digitChar_props [OF h(3,4)] h(5))
    ultimately show ?thesis using dv2 up by simp
  qed
qed

lemma MakeDay_small:
  assumes "0 \<le> m" "m < 12" "1 \<le> d" "d \<le> daysInMonth y m" "1900 < y" "y \<le> 9999"
  shows "\<bar>MakeDay y m d\<bar> \<le> 4000000"
proof -
  let ?L = "InLeapYear y"
  have L: "?L = 0 \<or> ?L = 1" using InLeapYear_cases [of y] by auto
  have t: "0 \<le> monthStart ?L m + d - 1 \<and> monthStart ?L m + d - 1 < 365 + ?L"
    using month_table [of m d ?L] assms L by (simp add: daysInMonth_def)
  have "400 * DayFromYear y \<le> 146097 * (y - 1970) + 589"
    "146097 * (y - 1970) - 506 \<le> 400 * DayFromYear y"
    by (rule DayFromYear_bounds)+
  then have "- 30000 \<le> DayFromYear y" "DayFromYear y \<le> 3000000"
    using assms(5,6) by (simp_all add: algebra_simps)
  then show ?thesis
    using t L assms(1,2) by (auto simp: MakeDay_simple abs_if)
qed

lemma parseDeadline_deadlineAt:
  assumes "\<bar>tz\<bar> < msPerDay" "0 \<le> m" "m < 12" "1 \<le> d" "d \<le> daysInMonth y m"
    "1900 < y" "y \<le> 9999" "1 \<le> h" "h \<le> 12" "0 \<le> mi" "mi \<le> 59"
    "MakeDay y m d * msPerDay - tz \<noteq> 0"
    "ds \<in> set (dateTexts y m d)" "ts \<in> set (clockTexts h mi pm)"
  shows "parseDeadline tz fb ds ts = Some (Some (deadlineAt tz y m d h mi pm))"
proof -
  define D where "D = MakeDay y m d"
  have date: "parseSheetDate tz fb ds = D * msPerDay - tz" "ds \<noteq> []"
    unfolding D_def by (rule parseSheetDate_dateTexts [OF assms(1-7,13)])+
  obtain hs ms where t: "matchTime ts = Some (hs, ms, if pm then ''PM'' else ''AM'')"
    "digitsValue hs = h" "digitsValue ms = mi" and ne: "ts \<noteq> []"
    using matchTime_clockTexts [OF assms(8-11,14)] by blast
  have D: "\<bar>D\<bar> \<le> 4000000" unfolding D_def by (rule MakeDay_small [OF assms(2-7)])
  have H: "0 \<le> hour24 h pm" "hour24 h pm \<le> 23"
    using assms(8,9) by (auto simp: hour24_def)
  have setH: "setHours tz (D * msPerDay - tz) (hour24 h pm) mi 0 0
        = Some (D * msPerDay - tz + hour24 h pm * 3600000 + mi * 60000)"
  proof -
    have "setHours tz (D * msPerDay - tz) (hour24 h pm) mi 0 0
          = TimeClip (D * msPerDay + (hour24 h pm * 3600000 + mi * 60000) - tz)"
      by (simp add: setHours_def localDay_day)
    also have "\<dots> = Some (D * msPerDay - tz + hour24 h pm * 3600000 + mi * 60000)"
      using D H assms(1,10,11) by (simp add: TimeClip_def msPerDay_def abs_if split: if_splits)
    finally show ?thesis .
  qed
  have "parseDeadline tz fb ds ts = Some (setHours tz (D * msPerDay - tz) (hour24 h pm) mi 0 0)"
    using date ne t assms(8,9,12)
    by (cases pm) (auto simp: parseDeadline_def D_def [symmetric] hour24_def Let_def)
  then show ?thesis
    unfolding setH by (simp add: deadlineAt_def D_def)
qed

lemma rowValues_remark: "rowValues rem b ! 10 = rem"
  by (simp add: rowValues_def)

lemma rowIndex_parseBookingRow: "bk_rowIndex (parseBookingRow i row) = i + 2"
  by (simp add: parseBookingRow_def Let_def)

lemma rowIndex_enumerate:
  "map (\<lambda>p. bk_rowIndex (parseBookingRow (fst p) (snd p))) (enumerate n rows)
   = map (\<lambda>i. i + 2) [n..<n + length rows]"
proof (induction rows arbitrary: n)
  case Nil
  then show ?case by simp
next
  case (Cons row rows)
  have u: "[n..<n + length (row # rows)] = n # [Suc n..<Suc n + length rows]"
    using upt_conv_Cons [of n "n + length (row # rows)"] by (simp del: upt_Suc)
  show ?case
    unfolding u using Cons.IH [of "Suc n"]
    by (simp del: upt_Suc add: rowIndex_parseBookingRow)
qed

lemma parseBookingData_rowIndex:
  "map bk_rowIndex (parseBookingData values) = map (\<lambda>i. i + 2) [0..<length values - 1]"
proof (cases "values")
  case Nil
  then show ?thesis by (simp add: parseBookingData_def)
next
  case (Cons header rows)
  then show ?thesis
    using rowIndex_enumerate [of 0 rows]
    by (simp add: parseBookingData_def case_prod_beta comp_def)
qed

lemma parseBookingData_distinct: "distinct (map bk_rowIndex (parseBookingData values))"
  unfolding parseBookingData_rowIndex by (simp add: distinct_map inj_on_def)

lemma parseDeadline_null:
  assumes "enddate b = [] \<or> endtime b = [] \<or> matchTime (endtime b) = None
           \<or> parseSheetDate tz fb (enddate b) = 0"
  shows "parseDeadline tz fb (enddate b) (endtime b) = None"
  using assms by (auto simp: parseDeadline_def Let_def)

lemma handleExpiredBookings_cases:
  "handleExpiredBookings tz fb now r st =
     (let ex = filter (isExpired tz fb now) (allBookings st);
          data = map (\<lambda>b. (bk_rowIndex b, rowValues ''end'' b)) ex
      in if ex = [] then (st, [])
         else (case r of
                 Succeeds \<Rightarrow>
                   (st\<lparr>bookingCache := None,
                       allBookings :=
                         filter (\<lambda>b. bk_rowIndex b \<notin> bk_rowIndex ` set ex) (allBookings st),
                       bookingSheet := storeRows (bookingSheet st) data\<rparr>,
                    [BatchWrite data])
               | Fails msg \<Rightarrow>
                   (st\<lparr>bookingSheet := bookingSheet st\<rparr>,
                    [BatchWrite data,
                     Toast (''Update Error: '' @ errorText msg ''Could not update.'') ''error'',
                     Toast ''Could not update expired bookings automatically.'' ''error''])))"
  by (cases r) (simp_all add: handleExpiredBookings_def batchUpdateSheet_def Let_def comp_def)

lemmas bk_ev = deadExample_def malformedBooking_def expiredBooking_def emptyBooking_def idleState_def handleExpiredBookings_cases
  isExpired_def hasNoAction_def deadlinePassed_def parseDeadline_def matchTimeAt_def
  parseSheetDate_def validatedDate_def newDate_def TimeClip_def fullYear_def setHours_def
  getFullYear_def getMonth_def getDate_def localDay_def msPerDay_def
  rowValues_def writtenRows_def storeRows_def writeRow_def errorText_def

lemma isExpired_I:
  assumes "remark b = []" "parseDeadline tz fb (enddate b) (endtime b) = Some (Some t)" "t < now"
  shows "isExpired tz fb now b"
  using assms by (simp add: isExpired_def hasNoAction_def deadlinePassed_def)

lemma activeBookings_subset: "set (activeBookings tz fb n bs) \<subseteq> set bs"
  by (auto simp: activeBookings_def)

text \<open>
  C10. A booking whose end date or end time is empty, whose end time does not match the
  time pattern, or whose end date parses to the epoch has no deadline (\<open>parseDeadline\<close>
  returns \<open>null\<close>), and the expiry sweep leaves it alone whatever the current time and
  whatever the outcome of the write: no batch write addresses its row and it stays in
  the in-memory list.  Row indices are distinct, as the parser assigns them.
\<close>

theorem malformed_deadline_never_swept:
  assumes "enddate b = [] \<or> endtime b = [] \<or> matchTime (endtime b) = None
           \<or> parseSheetDate tz fb (enddate b) = 0"
    and "b \<in> set (allBookings st)"
    and "distinct (map bk_rowIndex (allBookings st))"
  shows "parseDeadline tz fb (enddate b) (endtime b) = None
         \<and> b \<in> set (allBookings (fst (handleExpiredBookings tz fb now r st)))
         \<and> bk_rowIndex b \<notin> set (writtenRows (snd (handleExpiredBookings tz fb now r st)))"
proof -
  have null: "parseDeadline tz fb (enddate b) (endtime b) = None"
    using assms(1) by (rule parseDeadline_null)
  then have ne: "\<not> isExpired tz fb now b"
    by (simp add: isExpired_def deadlinePassed_def)
  have other: "bk_rowIndex b \<noteq> bk_rowIndex b'" if "b' \<in> set (allBookings st)" "isExpired tz fb now b'" for b'
  proof -
    have "b' \<noteq> b" using that(2) ne by auto
    then show ?thesis
      using assms(2,3) that(1) by (auto simp: distinct_map inj_on_def)
  qed
  then have notin: "bk_rowIndex b \<notin> bk_rowIndex ` set (filter (isExpired tz fb now) (allBookings st))"
    by auto
  show ?thesis
    using null notin assms(2)
    by (cases r) (auto simp: handleExpiredBookings_cases Let_def writtenRows_def comp_def)
qed


theorem malformed_deadline_never_swept_witness:
  "matchTime (endtime (malformedBooking)) = None
   \<and> malformedBooking \<in> set (allBookings (idleState deadExample))
   \<and> distinct (map bk_rowIndex (allBookings (idleState deadExample)))
   \<and> parseDeadline 23400000 (lenientDateParse 23400000) (enddate (malformedBooking))
         (endtime (malformedBooking)) = None
   \<and> allBookings (fst (handleExpiredBookings 23400000 (lenientDateParse 23400000) 1762882200000 Succeeds
         (idleState deadExample))) = [malformedBooking]
   \<and> writtenRows (snd (handleExpiredBookings 23400000 (lenientDateParse 23400000) 1762882200000 Succeeds
         (idleState deadExample))) = [3]"
  using malformed_deadline_never_swept [of "malformedBooking" 23400000 "lenientDateParse 23400000"
      "idleState deadExample" 1762882200000 Succeeds]
  by (simp add: bk_ev str_ev cal_ev)

lemma updateBookingStatus_guard:
  "isSubmitting st \<Longrightarrow> updateBookingStatus r rowIndices rem st = (st, [])"
  by (simp add: updateBookingStatus_def)

text \<open>
  C6. A booking-status update that starts while no other submission is in flight first
  displays the list without the rows, before any batch write is sent; when the write
  fails the in-memory list is again exactly the list from before the removal, and it is
  displayed again.  The submission flag is cleared in every case.
\<close>

theorem updateBookingStatus_optimistic_rollback:
  assumes "\<not> isSubmitting st"
  shows "displayedBeforeWrite (snd (updateBookingStatus r rowIndices rem st))
           (filter (\<lambda>b. bk_rowIndex b \<notin> set rowIndices) (allBookings st))
         \<and> (r = Fails msg \<longrightarrow>
              allBookings (fst (updateBookingStatus r rowIndices rem st)) = allBookings st
              \<and> last (butlast (snd (updateBookingStatus r rowIndices rem st)))
                  = Displayed (allBookings st))
         \<and> \<not> isSubmitting (fst (updateBookingStatus r rowIndices rem st))"
  using assms
  by (cases r)
     (auto simp: updateBookingStatus_def batchUpdateSheet_def Let_def split: if_splits)

theorem updateBookingStatus_optimistic_rollback_witness:
  "\<not> isSubmitting (idleState deadExample)
   \<and> displayedBeforeWrite (snd (updateBookingStatus (Fails ''quota'') [3] ''complete''
         (idleState deadExample))) [malformedBooking]
   \<and> allBookings (fst (updateBookingStatus (Fails ''quota'') [3] ''complete''
         (idleState deadExample))) = deadExample"
  using updateBookingStatus_optimistic_rollback [of "idleState deadExample" "Fails ''quota''"
      "[3]" "''complete''" "''quota''"]
  by (simp add: idleState_def deadExample_def emptyBooking_def malformedBooking_def
      expiredBooking_def)

text \<open>
  While another submission is in flight the update is refused at once: nothing is
  displayed, nothing is written, and the rows stay in the list.
\<close>

theorem updateBookingStatus_guard_counterexample:
  "snd (updateBookingStatus Succeeds [2] ''complete'' busyExample) = []
   \<and> allBookings (fst (updateBookingStatus Succeeds [2] ''complete'' busyExample))
       = [emptyBooking\<lparr>bk_name := ''A'', bk_rowIndex := 2\<rparr>]"
  by (simp add: updateBookingStatus_def busyExample_def idleState_def)




lemma parseBookingData_index:
  assumes "b \<in> set (parseBookingData values)"
  shows "2 \<le> bk_rowIndex b" and "bk_rowIndex b \<le> length values"
    and "b = parseBookingRow (bk_rowIndex b - 2) (values ! (bk_rowIndex b - 1))"
proof -
  obtain j where j: "j + 1 < length values" "b = parseBookingRow j (values ! (j + 1))"
    using assms parseBookingData_member by blast
  have i: "bk_rowIndex b = j + 2" by (simp add: j(2) rowIndex_parseBookingRow)
  show "2 \<le> bk_rowIndex b" "bk_rowIndex b \<le> length values" using i j(1) by simp_all
  show "b = parseBookingRow (bk_rowIndex b - 2) (values ! (bk_rowIndex b - 1))"
    unfolding i using j(2) by simp
qed

lemma parseBookingData_same_row:
  assumes "b \<in> set (parseBookingData values)" "b' \<in> set (parseBookingData values)"
    "bk_rowIndex b' = bk_rowIndex b"
  shows "b' = b"
  using parseBookingData_index(3) [OF assms(1)] parseBookingData_index(3) [OF assms(2)] assms(3)
  by simp

lemma remark_parseBookingRow: "remark (parseBookingRow j row) = cell row 10"
  by (simp add: parseBookingRow_def Let_def)

lemma cell_rowValues_end: "cell (rowValues ''end'' b) 10 = ''end''"
  by (simp add: cell_def rowValues_def trim_def isSpace_def)

lemma hasNoAction_end: "remark b = ''end'' \<Longrightarrow> \<not> hasNoAction b"
  by (simp add: hasNoAction_def trim_def isSpace_def)

lemma sweep_success:
  assumes "allBookings st = parseBookingData values" "b \<in> set (allBookings st)"
    "isExpired tz fb now b"
  shows "bookingCache (fst (handleExpiredBookings tz fb now Succeeds st)) = None"
    and "bk_rowIndex b \<le> length (bookingSheet (fst (handleExpiredBookings tz fb now Succeeds st)))"
    and "bookingSheet (fst (handleExpiredBookings tz fb now Succeeds st)) ! (bk_rowIndex b - 1)
         = rowValues ''end'' b"
    and "bk_rowIndex b \<notin> bk_rowIndex ` set (allBookings (fst (handleExpiredBookings tz fb now Succeeds st)))"
proof -
  let ?ex = "filter (isExpired tz fb now) (allBookings st)"
  let ?data = "map (\<lambda>b. (bk_rowIndex b, rowValues ''end'' b)) ?ex"
  have mem: "b \<in> set ?ex" using assms(2,3) by simp
  then have ne: "?ex \<noteq> []" by (metis empty_iff empty_set)
  have S: "handleExpiredBookings tz fb now Succeeds st =
      (st\<lparr>bookingCache := None,
          allBookings := filter (\<lambda>b. bk_rowIndex b \<notin> bk_rowIndex ` set ?ex) (allBookings st),
          bookingSheet := storeRows (bookingSheet st) ?data\<rparr>, [BatchWrite ?data])"
    using ne by (simp add: handleExpiredBookings_cases Let_def)
  have "distinct (map bk_rowIndex (allBookings st))"
    unfolding assms(1) by (rule parseBookingData_distinct)
  then have "distinct (map bk_rowIndex ?ex)" by (rule distinct_map_filter)
  then have dist: "distinct (map fst ?data)" by (simp add: comp_def)
  have in_data: "(bk_rowIndex b, rowValues ''end'' b) \<in> set ?data" using mem by force
  have pos: "bk_rowIndex b \<noteq> 0"
    using parseBookingData_index(1) [of b "values"] assms(1,2) by simp
  show "bookingCache (fst (handleExpiredBookings tz fb now Succeeds st)) = None"
    by (simp add: S)
  show "bk_rowIndex b \<le> length (bookingSheet (fst (handleExpiredBookings tz fb now Succeeds st)))"
    "bookingSheet (fst (handleExpiredBookings tz fb now Succeeds st)) ! (bk_rowIndex b - 1)
         = rowValues ''end'' b"
    using storeRows_member [OF in_data pos dist, of "bookingSheet st"] by (simp_all add: S)
  have "bk_rowIndex b \<in> bk_rowIndex ` set ?ex" using mem by (rule imageI)
  then show "bk_rowIndex b \<notin> bk_rowIndex ` set (allBookings (fst (handleExpiredBookings tz fb now Succeeds st)))"
    unfolding S by force
qed

lemma sweep_events:
  "length (filter isBatchWrite (snd (handleExpiredBookings tz fb now r st))) \<le> 1"
  "set (writtenRows (snd (handleExpiredBookings tz fb now r st)))
     = bk_rowIndex ` set (filter (isExpired tz fb now) (allBookings st))"
  "set (allBookings (fst (handleExpiredBookings tz fb now r st))) \<subseteq> set (allBookings st)"
proof -
  show "length (filter isBatchWrite (snd (handleExpiredBookings tz fb now r st))) \<le> 1"
    by (cases r) (simp_all add: handleExpiredBookings_cases Let_def)
  show "set (writtenRows (snd (handleExpiredBookings tz fb now r st)))
     = bk_rowIndex ` set (filter (isExpired tz fb now) (allBookings st))"
    by (cases r)
       (simp_all add: handleExpiredBookings_cases Let_def writtenRows_def comp_def
          filter_empty_conv image_image)
  show "set (allBookings (fst (handleExpiredBookings tz fb now r st))) \<subseteq> set (allBookings st)"
    by (cases r) (auto simp: handleExpiredBookings_cases Let_def)
qed

lemma loadBookingData_succeeds:
  "loadBookingData tz fb now Succeeds fresh r st =
     (let values = readValues fresh st;
          st1 = (if fresh \<and> bookingCache st \<noteq> None then st
                 else st\<lparr>bookingCache := Some (bookingSheet st)\<rparr>)
      in if values = [] then (st1\<lparr>allBookings := []\<rparr>, [Displayed []])
         else (fst (handleExpiredBookings tz fb now r (st1\<lparr>allBookings := parseBookingData values\<rparr>)),
               snd (handleExpiredBookings tz fb now r (st1\<lparr>allBookings := parseBookingData values\<rparr>))
               @ [Displayed (allBookings (fst (handleExpiredBookings tz fb now r
                     (st1\<lparr>allBookings := parseBookingData values\<rparr>))))]))"
  by (cases "bookingCache st"; cases fresh)
     (simp_all add: loadBookingData_def fetchFromSheet_def readValues_def Let_def case_prod_beta)

lemma loadBookingData_fails:
  assumes "bookingCache st = None"
  shows "loadBookingData tz fb now (Fails msg) fresh r st =
     (st, [Toast (''API Error: '' @ errorText msg ''Could not fetch data.'') ''error'',
           EmptyState ''Failed to load bookings''])"
  using assms by (simp add: loadBookingData_def fetchFromSheet_def)

lemma writtenRows_append: "writtenRows (xs @ ys) = writtenRows xs @ writtenRows ys"
  by (simp add: writtenRows_def)

lemma reload_hidden:
  assumes "bookingCache st = None" "2 \<le> i" "i \<le> length (bookingSheet st)"
    "cell (bookingSheet st ! (i - 1)) 10 = ''end''"
    "i \<notin> bk_rowIndex ` set (allBookings st)"
  shows "i \<notin> bk_rowIndex ` set (activeBookings tz fb later
              (allBookings (fst (loadBookingData tz fb now rf fresh r st))))"
    and "i \<notin> set (writtenRows (snd (loadBookingData tz fb now rf fresh r st)))"
proof -
  have "i \<notin> bk_rowIndex ` set (activeBookings tz fb later
              (allBookings (fst (loadBookingData tz fb now rf fresh r st))))
        \<and> i \<notin> set (writtenRows (snd (loadBookingData tz fb now rf fresh r st)))"
  proof (cases rf)
    case (Fails msg)
    show ?thesis
      using assms(5) activeBookings_subset [of tz fb later "allBookings st"]
      by (auto simp: Fails loadBookingData_fails [OF assms(1)] writtenRows_def)
  next
    case Succeeds
    let ?sh = "bookingSheet st"
    let ?st = "st\<lparr>bookingCache := Some ?sh, allBookings := parseBookingData ?sh\<rparr>"
    let ?S = "handleExpiredBookings tz fb now r ?st"
    have ne: "?sh \<noteq> []" using assms(2,3) by auto
    have L: "loadBookingData tz fb now rf fresh r st
        = (fst ?S, snd ?S @ [Displayed (allBookings (fst ?S))])"
      using ne assms(1) by (simp add: Succeeds loadBookingData_succeeds readValues_def Let_def)
    have closed: "\<not> hasNoAction b'"
      if "b' \<in> set (parseBookingData ?sh)" "bk_rowIndex b' = i" for b'
    proof -
      have "b' = parseBookingRow (i - 2) (?sh ! (i - 1))"
        using parseBookingData_index(3) [OF that(1)] that(2) by simp
      then have "remark b' = ''end''" using assms(4) by (simp add: remark_parseBookingRow)
      then show ?thesis by (rule hasNoAction_end)
    qed
    have "i \<notin> bk_rowIndex ` set (filter (isExpired tz fb now) (allBookings ?st))"
      using closed by (auto simp: isExpired_def)
    then have w: "i \<notin> set (writtenRows (snd ?S))"
      using sweep_events(2) [of tz fb now r ?st] by simp
    have "set (allBookings (fst ?S)) \<subseteq> set (parseBookingData ?sh)"
      using sweep_events(3) [of tz fb now r ?st] by simp
    then have a: "i \<notin> bk_rowIndex ` set (activeBookings tz fb later (allBookings (fst ?S)))"
      using closed by (auto simp: activeBookings_def)
    show ?thesis using w a by (simp add: L writtenRows_append writtenRows_def)
  qed
  then show "i \<notin> bk_rowIndex ` set (activeBookings tz fb later
              (allBookings (fst (loadBookingData tz fb now rf fresh r st))))"
    and "i \<notin> set (writtenRows (snd (loadBookingData tz fb now rf fresh r st)))"
    by simp_all
qed

lemmas sheet_ev = loadBookingData_succeeds readValues_def sheetState_def sampleBookingSheet_def
  bookingRow_def parseBookingData_def parseBookingRow_def cell_def sampleExpired_def
  activeBookings_def

lemma sample_first_load:
  "map bk_name (allBookings (fst (loadBookingData 23400000 (lenientDateParse 23400000)
      1762882200000 Succeeds False Succeeds (sheetState sampleBookingSheet)))) = [''A'', ''C'']"
  "writtenRows (snd (loadBookingData 23400000 (lenientDateParse 23400000)
      1762882200000 Succeeds False Succeeds (sheetState sampleBookingSheet))) = [3]"
  "cell (bookingSheet (fst (loadBookingData 23400000 (lenientDateParse 23400000)
      1762882200000 Succeeds False Succeeds (sheetState sampleBookingSheet))) ! 2) 10 = ''end''"
  by (simp_all add: sheet_ev bk_ev str_ev cal_ev)


lemma sample_first_state:
  "bookingCache (fst (loadBookingData 23400000 (lenientDateParse 23400000)
      1762882200000 Succeeds False Succeeds (sheetState sampleBookingSheet))) = None"
  "bookingSheet (fst (loadBookingData 23400000 (lenientDateParse 23400000)
      1762882200000 Succeeds False Succeeds (sheetState sampleBookingSheet)))
   = sampleBookingSheet[2 := bookingRow ''B'' ''end'' ''01-Jan-2020'' ''3:45 PM'']"
  by (simp_all add: sheet_ev bk_ev str_ev cal_ev)

lemma sample_second_load:
  assumes "bookingCache st = None"
    "bookingSheet st = sampleBookingSheet[2 := bookingRow ''B'' ''end'' ''01-Jan-2020'' ''3:45 PM'']"
  shows "map bk_name (allBookings (fst (loadBookingData 23400000 (lenientDateParse 23400000)
      1762882300000 Succeeds True Succeeds st))) = [''A'', ''B'', ''C'']"
    and "map bk_name (activeBookings 23400000 (lenientDateParse 23400000) 1762882300000
     (allBookings (fst (loadBookingData 23400000 (lenientDateParse 23400000)
      1762882300000 Succeeds True Succeeds st)))) = [''A'', ''C'']"
    and "writtenRows (snd (loadBookingData 23400000 (lenientDateParse 23400000)
      1762882300000 Succeeds True Succeeds st)) = []"
  by (simp_all add: assms sheet_ev bk_ev str_ev cal_ev)

lemma sample_failed_load:
  "map bk_name (allBookings (fst (loadBookingData 23400000 (lenientDateParse 23400000)
      1762882200000 Succeeds False (Fails ''quota'') (sheetState sampleBookingSheet))))
   = [''A'', ''B'', ''C'']"
  "snd (loadBookingData 23400000 (lenientDateParse 23400000)
      1762882200000 Succeeds False (Fails ''quota'') (sheetState sampleBookingSheet)) ! 1
   = Toast ''Update Error: quota'' ''error''"
  "writtenRows (snd (loadBookingData 23400000 (lenientDateParse 23400000)
      1762882200000 Succeeds False (Fails ''quota'') (sheetState sampleBookingSheet))) = [3]"
  by (simp_all add: sheet_ev bk_ev str_ev cal_ev)

lemma sample_expired:
  "sampleExpired \<in> set (parseBookingData (readValues False (sheetState sampleBookingSheet)))"
  "remark sampleExpired = []" "bk_rowIndex sampleExpired = 3"
  "enddate sampleExpired = ''01-Jan-2020''" "endtime sampleExpired = ''3:45 PM''"
  "''01-Jan-2020'' \<in> set (dateTexts 2020 0 1)" "''3:45 PM'' \<in> set (clockTexts 3 45 True)"
  "deadlineAt 23400000 2020 0 1 3 45 True = 1577870100000"
  "MakeDay 2020 0 1 * msPerDay - 23400000 \<noteq> 0" "daysInMonth 2020 0 = 31"
  "map bk_name (parseBookingData (readValues False (sheetState sampleBookingSheet)))
   = [''A'', ''B'', ''C'']"
  by (simp_all add: sheet_ev trim_def isSpace_def dateTexts_def textMDY_def textDMonY_def
      clockTexts_def hourTexts_def twoDigits_def fourDigits_def digitChar_def monthAbbrev_def
      deadlineAt_def hour24_def msPerDay_def daysInMonth_def monthLength_def cal_ev)

text \<open>
  C7. The deadline of a booking is its end date at its end time on a 12-hour clock,
  where 12 AM is hour 0 and 12 PM is hour 12 (end dates of the years 1901 to 9999, in
  either spelling, other than the epoch instant itself).  A load sends at most one batch
  write.  A booking of the loaded rows that has no remark and whose deadline is before
  the current time is part of that one write.  When the write succeeds, its row in the
  sheet carries the remark \<open>end\<close>, it has left the in-memory list, and after any later
  load it is not among the active bookings and is not written again.  When the write
  fails, the failure is reported, the list is as it was loaded, and no second write is
  sent.
\<close>

theorem expiry_sweep:
  assumes "\<bar>tz\<bar> < msPerDay"
    and "0 \<le> m" "m < 12" "1 \<le> d" "d \<le> daysInMonth y m" "1900 < y" "y \<le> 9999"
    and "1 \<le> h" "h \<le> 12" "0 \<le> mi" "mi \<le> 59"
    and "MakeDay y m d * msPerDay - tz \<noteq> 0"
    and "b \<in> set (parseBookingData (readValues fresh st))"
    and "remark b = []"
    and "enddate b \<in> set (dateTexts y m d)" "endtime b \<in> set (clockTexts h mi pm)"
    and "deadlineAt tz y m d h mi pm < now"
  shows "parseDeadline tz fb (enddate b) (endtime b) = Some (Some (deadlineAt tz y m d h mi pm))
    \<and> length (filter isBatchWrite (snd (loadBookingData tz fb now rf fresh r st))) \<le> 1
    \<and> length (filter isBatchWrite (snd (loadBookingData tz fb now Succeeds fresh r st))) = 1
    \<and> bk_rowIndex b \<in> set (writtenRows (snd (loadBookingData tz fb now Succeeds fresh r st)))
    \<and> (r = Succeeds \<longrightarrow>
          cell (bookingSheet (fst (loadBookingData tz fb now Succeeds fresh r st))
                  ! (bk_rowIndex b - 1)) 10 = ''end''
          \<and> bk_rowIndex b \<notin> bk_rowIndex `
                set (allBookings (fst (loadBookingData tz fb now Succeeds fresh r st)))
          \<and> bk_rowIndex b \<notin> bk_rowIndex `
                set (activeBookings tz fb later
                      (allBookings (fst (loadBookingData tz fb now2 rf2 fresh2 r2
                         (fst (loadBookingData tz fb now Succeeds fresh r st))))))
          \<and> bk_rowIndex b \<notin>
                set (writtenRows (snd (loadBookingData tz fb now2 rf2 fresh2 r2
                       (fst (loadBookingData tz fb now Succeeds fresh r st))))))
    \<and> (r = Fails msg \<longrightarrow>
          Toast ''Could not update expired bookings automatically.'' ''error''
            \<in> set (snd (loadBookingData tz fb now Succeeds fresh r st))
          \<and> allBookings (fst (loadBookingData tz fb now Succeeds fresh r st))
              = parseBookingData (readValues fresh st))"
proof -
  let ?vals = "readValues fresh st"
  let ?st1 = "if fresh \<and> bookingCache st \<noteq> None then st
              else st\<lparr>bookingCache := Some (bookingSheet st)\<rparr>"
  let ?st = "?st1\<lparr>allBookings := parseBookingData ?vals\<rparr>"
  let ?S = "handleExpiredBookings tz fb now r ?st"
  let ?L = "loadBookingData tz fb now Succeeds fresh r st"
  let ?ex = "filter (isExpired tz fb now) (allBookings ?st)"
  have ne: "?vals \<noteq> []"
    using assms(13) by (auto simp: parseBookingData_def)
  have L: "?L = (fst ?S, snd ?S @ [Displayed (allBookings (fst ?S))])"
    using ne by (simp add: loadBookingData_succeeds Let_def)
  have pd: "parseDeadline tz fb (enddate b) (endtime b)
        = Some (Some (deadlineAt tz y m d h mi pm))"
    by (rule parseDeadline_deadlineAt [OF assms(1-12,15,16)])
  have ex: "isExpired tz fb now b"
    by (rule isExpired_I [OF assms(14) pd assms(17)])
  have all: "allBookings ?st = parseBookingData ?vals" by simp
  have mem: "b \<in> set (allBookings ?st)" using assms(13) by simp
  then have "b \<in> set ?ex" using ex by simp
  then have ne_ex: "?ex \<noteq> []" by (metis empty_iff empty_set)
  have one: "length (filter isBatchWrite (snd ?S)) = 1"
    using ne_ex by (cases r) (simp_all add: handleExpiredBookings_cases Let_def)
  have le: "length (filter isBatchWrite (snd (loadBookingData tz fb now rf fresh r st))) \<le> 1"
  proof (cases rf)
    case Succeeds
    show ?thesis
      using sweep_events(1) [of tz fb now r]
      by (simp add: Succeeds loadBookingData_succeeds Let_def)
  next
    case (Fails e)
    show ?thesis
    proof (cases "fresh \<and> bookingCache st \<noteq> None")
      case True
      then have "loadBookingData tz fb now rf fresh r st
                 = loadBookingData tz fb now Succeeds fresh r st"
        by (auto simp: loadBookingData_def fetchFromSheet_def)
      then show ?thesis
        using sweep_events(1) [of tz fb now r]
        by (simp add: loadBookingData_succeeds Let_def)
    next
      case False
      then show ?thesis
        by (auto simp: Fails loadBookingData_def fetchFromSheet_def)
    qed
  qed
  have wr: "bk_rowIndex b \<in> set (writtenRows (snd ?S))"
    using mem ex by (simp add: sweep_events(2))
  have ok: "cell (bookingSheet (fst ?L) ! (bk_rowIndex b - 1)) 10 = ''end''
          \<and> bk_rowIndex b \<notin> bk_rowIndex ` set (allBookings (fst ?L))
          \<and> bk_rowIndex b \<notin> bk_rowIndex `
                set (activeBookings tz fb later
                      (allBookings (fst (loadBookingData tz fb now2 rf2 fresh2 r2 (fst ?L)))))
          \<and> bk_rowIndex b \<notin>
                set (writtenRows (snd (loadBookingData tz fb now2 rf2 fresh2 r2 (fst ?L))))"
    if r: "r = Succeeds"
  proof -
    note s = sweep_success [OF all mem ex, unfolded r [symmetric]]
    have c: "cell (bookingSheet (fst ?S) ! (bk_rowIndex b - 1)) 10 = ''end''"
      by (simp only: s(3) cell_rowValues_end)
    have i2: "2 \<le> bk_rowIndex b" by (rule parseBookingData_index(1) [OF assms(13)])
    show ?thesis
      unfolding L fst_conv
      using c s(4) reload_hidden [OF s(1) i2 s(2) c s(4)] by blast
  qed
  have bad: "Toast ''Could not update expired bookings automatically.'' ''error'' \<in> set (snd ?L)
          \<and> allBookings (fst ?L) = parseBookingData ?vals"
    if r: "r = Fails msg"
    unfolding L using ne_ex by (simp add: r handleExpiredBookings_cases Let_def)
  show ?thesis
    using pd le one wr ok bad by (simp add: L writtenRows_append)
qed

theorem expiry_sweep_witness:
  "\<bar>23400000\<bar> < msPerDay \<and> 1 \<le> daysInMonth 2020 0
   \<and> MakeDay 2020 0 1 * msPerDay - 23400000 \<noteq> 0
   \<and> sampleExpired \<in> set (parseBookingData (readValues False (sheetState sampleBookingSheet)))
   \<and> remark sampleExpired = []
   \<and> enddate sampleExpired \<in> set (dateTexts 2020 0 1)
   \<and> endtime sampleExpired \<in> set (clockTexts 3 45 True)
   \<and> deadlineAt 23400000 2020 0 1 3 45 True < 1762882200000
   \<and> parseDeadline 23400000 (lenientDateParse 23400000) ''01-Jan-2020'' ''3:45 PM''
       = Some (Some 1577870100000)
   \<and> writtenRows (snd (loadBookingData 23400000 (lenientDateParse 23400000) 1762882200000
         Succeeds False Succeeds (sheetState sampleBookingSheet))) = [3]
   \<and> cell (bookingSheet (fst (loadBookingData 23400000 (lenientDateParse 23400000)
         1762882200000 Succeeds False Succeeds (sheetState sampleBookingSheet))) ! 2) 10 = ''end''
   \<and> map bk_name (allBookings (fst (loadBookingData 23400000 (lenientDateParse 23400000)
         1762882200000 Succeeds False Succeeds (sheetState sampleBookingSheet))))
       = [''A'', ''C'']
   \<and> map bk_name (allBookings (fst (loadBookingData 23400000 (lenientDateParse 23400000)
         1762882300000 Succeeds True Succeeds
         (fst (loadBookingData 23400000 (lenientDateParse 23400000) 1762882200000
            Succeeds False Succeeds (sheetState sampleBookingSheet))))))
       = [''A'', ''B'', ''C'']
   \<and> map bk_name (activeBookings 23400000 (lenientDateParse 23400000) 1762882300000
         (allBookings (fst (loadBookingData 23400000 (lenientDateParse 23400000)
            1762882300000 Succeeds True Succeeds
            (fst (loadBookingData 23400000 (lenientDateParse 23400000) 1762882200000
               Succeeds False Succeeds (sheetState sampleBookingSheet)))))))
       = [''A'', ''C'']
   \<and> Toast ''Could not update expired bookings automatically.'' ''error''
         \<in> set (snd (loadBookingData 23400000 (lenientDateParse 23400000) 1762882200000
               Succeeds False (Fails ''quota'') (sheetState sampleBookingSheet)))
   \<and> map bk_name (allBookings (fst (loadBookingData 23400000 (lenientDateParse 23400000)
         1762882200000 Succeeds False (Fails ''quota'') (sheetState sampleBookingSheet))))
       = [''A'', ''B'', ''C'']"
proof -
  have tz: "\<bar>23400000\<bar> < msPerDay" by (simp add: msPerDay_def)
  show ?thesis
    using expiry_sweep [where tz = 23400000 and y = 2020 and m = 0 and d = 1 and h = 3
        and mi = 45 and pm = True and b = sampleExpired and fresh = False
        and st = "sheetState sampleBookingSheet" and now = 1762882200000
        and fb = "lenientDateParse 23400000" and r = "Fails ''quota''" and msg = "''quota''"
        and rf = Succeeds, OF tz _ _ _ _ _ _ _ _ _ _ sample_expired(9)]
      sample_second_load [OF sample_first_state] tz sample_expired(9)
    by (simp add: sample_expired sample_first_load sample_failed_load)
qed

subsection \<open>Fee rows\<close>

lemma toLowerCase_rev: "toLowerCase (rev s) = rev (toLowerCase s)"
  by (simp add: toLowerCase_def rev_map)

lemma feesSuffixTest_suffix:
  assumes "s = [] \<or> \<not> isSpace (last s)"
  shows "feesSuffixTest s = suffix ''(fees)'' (toLowerCase s)"
proof -
  have "dropWhile isSpace (rev s) = rev s"
    using assms by (cases s rule: rev_cases) simp_all
  then have "feesSuffixTest s = prefix (rev ''(fees)'') (rev (toLowerCase s))"
    by (simp add: feesSuffixTest_def toLowerCase_rev)
  then show ?thesis by (simp only: suffix_to_prefix)
qed

text \<open>
  On a name that does not end in white space the dashboard's detector is the rule as
  worded, and every row the rule accepts is accepted by the manage view's detector.
\<close>

lemma isFeeEntryRow_spec:
  assumes "name t = [] \<or> \<not> isSpace (last (name t))"
  shows "isFeeEntryRow t = specFeeEntry t"
  by (simp add: isFeeEntryRow_def specFeeEntry_def feesSuffixTest_suffix [OF assms])

lemma specFeeEntry_isFeeRow: "specFeeEntry t \<Longrightarrow> isFeeRow t"
  by (auto simp: specFeeEntry_def isFeeRow_def str_includes_sublist)

text \<open>
  C9. A row is a fee entry exactly when its name ends with \<open>(Fees)\<close> or its remarks
  contain \<open>fee entry\<close>, and the two detectors agree.  The manage view's \<open>isFeeRow\<close>
  looks for \<open>(fees)\<close> anywhere in the name: on the row named \<open>JOHN (Fees) JR\<close> with
  empty remarks it answers yes, while the name does not end with \<open>(Fees)\<close> and the
  dashboard's \<open>isFeeEntryRow\<close> answers no.
\<close>

theorem isFeeRow_accepts_inner_fees:
  "isFeeRow (emptyTicket\<lparr>name := ''JOHN (Fees) JR''\<rparr>)
   \<and> \<not> isFeeEntryRow (emptyTicket\<lparr>name := ''JOHN (Fees) JR''\<rparr>)
   \<and> \<not> specFeeEntry (emptyTicket\<lparr>name := ''JOHN (Fees) JR''\<rparr>)"
  by (simp add: isFeeRow_def isFeeEntryRow_def specFeeEntry_def feesSuffixTest_def
      emptyTicket_def toLowerCase_def toLowerChar_def isSpace_def suffix_def)

subsection \<open>Unpaid grouping\<close>

lemma sum_upsert:
  "sum_list (map (\<lambda>kv. f (snd kv)) (upsert kvs k v)) =
   sum_list (map (\<lambda>kv. f (snd kv)) kvs)
   - (case map_of kvs k of None \<Rightarrow> 0 | Some w \<Rightarrow> f w) + (f v :: int)"
  by (induction kvs) auto

lemma unpaidStep_sum:
  "sum_list (map (\<lambda>kv. totalDue (snd kv)) (unpaidStep groups t)) =
   sum_list (map (\<lambda>kv. totalDue (snd kv)) groups)
   + (if unpaidActive t then unpaidAmount t else 0)"
  by (auto simp: unpaidStep_def unpaidActive_def Let_def sum_upsert split: option.splits)

lemma foldl_unpaidStep_sum:
  "sum_list (map (\<lambda>kv. totalDue (snd kv)) (foldl unpaidStep groups ts)) =
   sum_list (map (\<lambda>kv. totalDue (snd kv)) groups)
   + sum_list (map unpaidAmount (filter unpaidActive ts))"
  by (induction ts arbitrary: groups) (simp_all add: unpaidStep_sum)


lemma unpaidGroups_snoc: "unpaidGroups (ts @ [t]) = unpaidStep (unpaidGroups ts) t"
  by (simp add: unpaidGroups_def)

lemma map_fst_upsert:
  "map fst (upsert kvs k v) = (if k \<in> fst ` set kvs then map fst kvs else map fst kvs @ [k])"
proof (induction kvs)
  case Nil
  show ?case by simp
next
  case (Cons x kvs)
  obtain a b where x: "x = (a, b)" by (cases x)
  show ?case
  proof (cases "k \<in> fst ` set kvs")
    case True
    then show ?thesis using Cons.IH by (simp add: x)
  next
    case False
    then show ?thesis using Cons.IH by (simp add: x)
  qed
qed

lemma map_of_upsert: "map_of (upsert kvs k v) = (map_of kvs)(k \<mapsto> v)"
  by (induction kvs) (auto simp: fun_eq_iff)

lemma unpaidPnr_pnrKey: "unpaidPnr t = pnrKey t"
  by (simp add: unpaidPnr_def pnrKey_def toUpperCase_def toUpperChar_def)

lemma unpaidStep_inactive: "\<not> unpaidActive t \<Longrightarrow> unpaidStep gs t = gs"
  by (auto simp: unpaidStep_def unpaidActive_def Let_def)

lemma unpaidStep_active:
  assumes "unpaidActive t"
  shows "\<exists>g. unpaidStep gs t = upsert gs (pnrKey t) g
           \<and> pnr g = (case map_of gs (pnrKey t) of None \<Rightarrow> pnrKey t | Some g0 \<Rightarrow> pnr g0)
           \<and> totalDue g = (case map_of gs (pnrKey t) of None \<Rightarrow> 0 | Some g0 \<Rightarrow> totalDue g0)
                           + (net_amount t + extra_fare t + date_change t)"
  using assms
  by (auto simp: unpaidStep_def unpaidActive_def unpaidPnr_pnrKey unpaidAmount_def Let_def
      split: option.splits)

lemma unpaidGroups_inv:
  "distinct (map fst (unpaidGroups ts))
   \<and> set (map fst (unpaidGroups ts)) = set (map pnrKey (filter unpaidActive ts))
   \<and> (\<forall>k g. map_of (unpaidGroups ts) k = Some g \<longrightarrow>
         pnr g = k
         \<and> totalDue g = sum_list (map (\<lambda>t. net_amount t + extra_fare t + date_change t)
                                   (filter (\<lambda>t. unpaidActive t \<and> pnrKey t = k) ts)))"
proof (induction ts rule: rev_induct)
  case Nil
  show ?case by (simp add: unpaidGroups_def)
next
  case (snoc t ts)
  let ?gs = "unpaidGroups ts"
  let ?due = "\<lambda>t. net_amount t + extra_fare t + date_change t"
  show ?case
  proof (cases "unpaidActive t")
    case False
    then show ?thesis using snoc.IH by (simp add: unpaidGroups_snoc unpaidStep_inactive)
  next
    case True
    let ?p = "pnrKey t"
    obtain g where g: "unpaidStep ?gs t = upsert ?gs ?p g"
      "pnr g = (case map_of ?gs ?p of None \<Rightarrow> ?p | Some g0 \<Rightarrow> pnr g0)"
      "totalDue g = (case map_of ?gs ?p of None \<Rightarrow> 0 | Some g0 \<Rightarrow> totalDue g0) + ?due t"
      using unpaidStep_active [OF True] by blast
    have d: "distinct (map fst ?gs)"
      and keys: "set (map fst ?gs) = set (map pnrKey (filter unpaidActive ts))"
      and grp: "\<And>k g. map_of ?gs k = Some g \<Longrightarrow>
                 pnr g = k \<and> totalDue g = sum_list (map ?due
                              (filter (\<lambda>t. unpaidActive t \<and> pnrKey t = k) ts))"
      using snoc.IH by blast+
    have none: "sum_list (map ?due (filter (\<lambda>t. unpaidActive t \<and> pnrKey t = ?p) ts)) = 0"
      if "map_of ?gs ?p = None"
    proof -
      have notin: "?p \<notin> set (map pnrKey (filter unpaidActive ts))"
        using that keys by (simp add: map_of_eq_None_iff)
      have "\<not> (unpaidActive x \<and> pnrKey x = ?p)" if "x \<in> set ts" for x
      proof
        assume a: "unpaidActive x \<and> pnrKey x = ?p"
        then have "x \<in> set (filter unpaidActive ts)" using that by simp
        then have "pnrKey x \<in> set (map pnrKey (filter unpaidActive ts))"
          by (simp only: set_map) (rule imageI)
        then show False using a notin by simp
      qed
      then have "filter (\<lambda>t. unpaidActive t \<and> pnrKey t = ?p) ts = []"
        by (simp add: filter_empty_conv)
      then show ?thesis by simp
    qed
    have gp: "pnr g = ?p \<and> totalDue g = sum_list (map ?due
                 (filter (\<lambda>t. unpaidActive t \<and> pnrKey t = ?p) (ts @ [t])))"
    proof (cases "map_of ?gs ?p")
      case None
      then show ?thesis using g(2,3) none True by simp
    next
      case (Some g0)
      then show ?thesis using g(2,3) grp [OF Some] True by simp
    qed
    have 1: "distinct (map fst (unpaidGroups (ts @ [t])))"
      using d by (auto simp: unpaidGroups_snoc g(1) map_fst_upsert)
    have 2: "set (map fst (unpaidGroups (ts @ [t])))
             = set (map pnrKey (filter unpaidActive (ts @ [t])))"
      using keys True by (auto simp: unpaidGroups_snoc g(1) map_fst_upsert)
    have 3: "pnr g' = k \<and> totalDue g' = sum_list (map ?due
               (filter (\<lambda>t. unpaidActive t \<and> pnrKey t = k) (ts @ [t])))"
      if "map_of (unpaidGroups (ts @ [t])) k = Some g'" for k g'
    proof (cases "k = ?p")
      case True
      then have "g' = g" using that by (simp add: unpaidGroups_snoc g(1) map_of_upsert)
      then show ?thesis using gp True by simp
    next
      case False
      then have "map_of ?gs k = Some g'"
        using that by (simp add: unpaidGroups_snoc g(1) map_of_upsert)
      then show ?thesis using grp False by auto
    qed
    show ?thesis using 1 2 3 by blast
  qed
qed

text \<open>
  C3. Grouping the unpaid, non-cancelled tickets by PNR in capitals (\<open>N/A\<close> for a row
  without a PNR) is a partition.  There is one group for each key that occurs and no
  other; a group carries its key, and its amount due is the sum of
  \<open>net_amount + extra_fare + date_change\<close> over exactly the unpaid, non-cancelled
  tickets of that key; so the amounts due of the groups add up to that sum over all
  those tickets, nothing counted twice and nothing left out.
\<close>

theorem unpaidGroups_partition:
  "distinct (map fst (unpaidGroups ts))
   \<and> set (map fst (unpaidGroups ts)) = set (map pnrKey (filter unpaidActive ts))
   \<and> map (\<lambda>kv. (pnr (snd kv), totalDue (snd kv))) (unpaidGroups ts)
       = map (\<lambda>kv. (fst kv,
                    sum_list (map (\<lambda>t. net_amount t + extra_fare t + date_change t)
                               (filter (\<lambda>t. unpaidActive t \<and> pnrKey t = fst kv) ts))))
           (unpaidGroups ts)
   \<and> sum_list (map (\<lambda>kv. totalDue (snd kv)) (unpaidGroups ts))
       = sum_list (map (\<lambda>t. net_amount t + extra_fare t + date_change t)
                    (filter unpaidActive ts))"
proof -
  note inv = unpaidGroups_inv [of ts]
  have d: "distinct (map fst (unpaidGroups ts))" using inv by blast
  have grp: "(pnr (snd kv), totalDue (snd kv))
      = (fst kv, sum_list (map (\<lambda>t. net_amount t + extra_fare t + date_change t)
                            (filter (\<lambda>t. unpaidActive t \<and> pnrKey t = fst kv) ts)))"
    if "kv \<in> set (unpaidGroups ts)" for kv
  proof -
    have "map_of (unpaidGroups ts) (fst kv) = Some (snd kv)"
      using that d by simp
    then show ?thesis using inv by simp
  qed
  have "map unpaidAmount = map (\<lambda>t. net_amount t + extra_fare t + date_change t)"
    by (simp add: unpaidAmount_def fun_eq_iff)
  then have total: "sum_list (map (\<lambda>kv. totalDue (snd kv)) (unpaidGroups ts))
       = sum_list (map (\<lambda>t. net_amount t + extra_fare t + date_change t)
                    (filter unpaidActive ts))"
    using foldl_unpaidStep_sum [of "[]" ts] by (simp add: unpaidGroups_def)
  show ?thesis
    using inv grp total by (auto intro: map_cong)
qed

lemma unpaidGroups_mixedCase:
  "map (\<lambda>kv. (fst kv, pnr (snd kv), totalDue (snd kv))) (unpaidGroups mixedCaseTickets)
   = [(''AB1'', ''AB1'', 123), (''N/A'', ''N/A'', 7)]"
  "map pnrKey (filter unpaidActive mixedCaseTickets) = [''AB1'', ''AB1'', ''N/A'']"
  by (simp_all add: unpaidGroups_def mixedCaseTickets_def emptyTicket_def unpaidStep_def
      unpaidPnr_def unpaidAmount_def unpaidActive_def pnrKey_def normalizePassengerName_def
      stripFeesSuffix_def trim_def isSpace_def toLowerCase_def toLowerChar_def toUpperCase_def
      toUpperChar_def Let_def)

text \<open>
  C4. On the scenario's two rows the group of \<open>AB1\<close> is due 105000.  Its passengers
  are \<open>JOHN\<close> and \<open>MR JOHN\<close>: only the \<open>(Fees)\<close> suffix is stripped before names are
  compared, a title in front of a name is not.
\<close>

theorem unpaidGroups_scenarioAB1:
  "unpaidGroups scenarioAB1 =
     [(''AB1'', \<lparr>pnr = ''AB1'', passengers = [''JOHN'', ''MR JOHN''], totalDue = 105000\<rparr>)]"
  by (simp add: unpaidGroups_def scenarioAB1_def emptyTicket_def unpaidStep_def unpaidPnr_def
      unpaidAmount_def normalizePassengerName_def stripFeesSuffix_def trim_def isSpace_def
      toLowerCase_def toLowerChar_def toUpperCase_def toUpperChar_def Let_def)

theorem unpaidGroups_scenarioAB1_passengers_counterexample:
  "map (passengers \<circ> snd) (unpaidGroups scenarioAB1) \<noteq> [[''JOHN'']]"
  by (simp add: unpaidGroups_def scenarioAB1_def emptyTicket_def unpaidStep_def unpaidPnr_def
      unpaidAmount_def normalizePassengerName_def stripFeesSuffix_def trim_def isSpace_def
      toLowerCase_def toLowerChar_def toUpperCase_def toUpperChar_def Let_def)

subsection \<open>Settlement balance\<close>

lemma foldl_plus: "foldl (\<lambda>sum x. sum + f x) a xs = a + sum_list (map f xs)" for a :: int
  by (induction xs arbitrary: a) simp_all

lemma foldl_plus2:
  "foldl (\<lambda>sum x. sum + f x + g x) a xs = a + sum_list (map (\<lambda>x. f x + g x) xs)" for a :: int
  by (induction xs arbitrary: a) simp_all

lemma carriedBalance_sum:
  "carriedBalance ts ss =
     sum_list (map (\<lambda>t. net_amount t + date_change t) ts) - sum_list (map commission ts)
     - sum_list (map amount_paid ss)"
  by (simp add: carriedBalance_def foldl_plus foldl_plus2)

lemma monthOfYearDay_range: "0 \<le> monthOfYearDay L w \<and> monthOfYearDay L w < 12"
  by (simp add: monthOfYearDay_def)

lemma MonthFromDay_range: "0 \<le> MonthFromDay D \<and> MonthFromDay D < 12"
  by (simp add: MonthFromDay_def Let_def monthOfYearDay_range)

lemma civil_inverse: "MakeDay (YearFromDay D) (MonthFromDay D) (DateFromDay D) = D"
  using MonthFromDay_range [of D] by (simp add: MakeDay_simple DateFromDay_def Let_def)

lemma monthStart_step:
  assumes "0 < m" "m < 12"
  shows "monthStart L m = monthStart L (m - 1) + monthLength L (m - 1)"
proof -
  have "0 \<le> m" using assms by simp
  from month_cases [OF this assms(2)] assms(1) show ?thesis
    by (elim disjE) (simp_all add: monthStart_def monthLength_def)
qed

lemma monthLength_ge: "L = 0 \<or> L = 1 \<Longrightarrow> 1 \<le> monthLength L m"
  by (auto simp: monthLength_def)

lemma daysInMonth_ge: "1 \<le> daysInMonth y m"
  using InLeapYear_cases [of y] by (auto simp: daysInMonth_def monthLength_def)

lemma prior_month_day:
  assumes "0 \<le> m" "m < 12"
  shows "MakeDay y m 1 - 1 =
         MakeDay (fst (priorMonth y m)) (snd (priorMonth y m))
           (daysInMonth (fst (priorMonth y m)) (snd (priorMonth y m)))"
proof (cases "m = 0")
  case True
  have "DayFromYear y = DayFromYear (y - 1) + DaysInYear (y - 1)"
    using DayFromYear_Suc [of "y - 1"] by simp
  then show ?thesis
    using True InLeapYear_cases [of "y - 1"]
    by (auto simp: priorMonth_def MakeDay_simple monthStart_def daysInMonth_def monthLength_def)
next
  case False
  then have m: "0 < m" using assms by simp
  show ?thesis
    using False assms monthStart_step [OF m assms(2), of "InLeapYear y"]
    by (simp add: priorMonth_def MakeDay_simple daysInMonth_def)
qed

lemma prior_month_civil:
  assumes "0 \<le> m" "m < 12"
  shows "YearFromDay (MakeDay y m 1 - 1) = fst (priorMonth y m)"
    and "MonthFromDay (MakeDay y m 1 - 1) = snd (priorMonth y m)"
proof -
  let ?py = "fst (priorMonth y m)" and ?pm = "snd (priorMonth y m)"
  have r: "0 \<le> ?pm" "?pm < 12" using assms by (auto simp: priorMonth_def)
  have d: "1 \<le> daysInMonth ?py ?pm" by (rule daysInMonth_ge)
  show "YearFromDay (MakeDay y m 1 - 1) = ?py" "MonthFromDay (MakeDay y m 1 - 1) = ?pm"
    unfolding prior_month_day [OF assms]
    using civil_roundtrip [OF r d order_refl] by simp_all
qed

lemma localDay_before_midnight: "localDay tz (D * msPerDay - tz - 1) = D - 1"
proof -
  have "(D * 86400000 - 1) div 86400000 = D - (1::int)"
    by (rule int_div_pos_eq [of _ _ _ 86399999]) simp_all
  then show ?thesis by (simp add: localDay_def msPerDay_def)
qed


lemma sum_list_minus:
  "sum_list (map (\<lambda>x. f x - g x) xs) = sum_list (map f xs) - sum_list (map g xs)"
  for f :: "'a \<Rightarrow> int"
  by (induction xs) simp_all

lemma carriedBalance_balanceOver: "carriedBalance ts ss = balanceOver ts ss"
  by (simp add: carriedBalance_sum balanceOver_def sum_list_minus)

lemma TimeClip_day1:
  assumes "\<bar>tz\<bar> < msPerDay" "\<bar>D\<bar> \<le> 99999999"
  shows "TimeClip (D * msPerDay - tz - 1) = Some (D * msPerDay - tz - 1)"
  using assms by (simp add: TimeClip_def msPerDay_def abs_if split: if_splits)

lemma TimeClip_utc:
  assumes "\<bar>D\<bar> \<le> 99999999"
  shows "TimeClip (D * msPerDay) = Some (D * msPerDay)"
  using assms by (simp add: TimeClip_def msPerDay_def abs_if split: if_splits)

lemma day_range:
  assumes "1900 < YearFromDay D" "YearFromDay D \<le> 9999"
  shows "\<bar>D\<bar> \<le> 99999999"
proof -
  let ?y = "YearFromDay D"
  have s: "DayFromYear ?y \<le> D" "D < DayFromYear (?y + 1)"
    using YearFromDay_spec [of D] by simp_all
  have "146097 * (?y - 1970) - 506 \<le> 400 * DayFromYear ?y"
    "400 * DayFromYear (?y + 1) \<le> 146097 * (?y + 1 - 1970) + 589"
    by (rule DayFromYear_bounds)+
  then have "- 30000 \<le> DayFromYear ?y" "DayFromYear (?y + 1) \<le> 3000000"
    using assms by (simp_all add: algebra_simps)
  with s show ?thesis by (simp add: abs_if)
qed

lemma fullYear_id: "1900 < y \<Longrightarrow> fullYear y = y"
  by (simp add: fullYear_def)

lemma legacyPreviousDue_eq:
  assumes "\<bar>tz\<bar> < msPerDay" "0 \<le> m" "m < 12" "1900 < y" "y \<le> 9999"
  shows "legacyPreviousDue tz fb ts ss y m = priorMonthBalance tz fb notFullRefund ts ss y m"
proof -
  let ?F = "MakeDay y m 1"
  have r: "\<bar>?F\<bar> \<le> 99999999"
    using MakeDay_range [OF assms(2,3) order_refl daysInMonth_ge assms(4,5)] .
  have n: "newDate tz y m 1 = Some (?F * msPerDay - tz)"
    using TimeClip_day [OF assms(1) r] assms(4) by (simp add: newDate_def fullYear_id)
  have c: "TimeClip (?F * msPerDay - tz - 1) = Some (?F * msPerDay - tz - 1)"
    using TimeClip_day1 [OF assms(1) r] .
  have g: "getMonth tz (?F * msPerDay - tz - 1) = snd (priorMonth y m)"
    "getFullYear tz (?F * msPerDay - tz - 1) = fst (priorMonth y m)"
    using prior_month_civil [OF assms(2,3), of y]
    by (simp_all add: getMonth_def getFullYear_def localDay_before_midnight)
  have e: "(\<lambda>t. getMonth tz (issuedAt tz fb t) = snd (priorMonth y m)
               \<and> getFullYear tz (issuedAt tz fb t) = fst (priorMonth y m) \<and> notFullRefund t)
         = (\<lambda>t. getFullYear tz (issuedAt tz fb t) = fst (priorMonth y m)
               \<and> getMonth tz (issuedAt tz fb t) = snd (priorMonth y m) \<and> notFullRefund t)"
    "(\<lambda>s. getMonth tz (settledAt tz fb s) = snd (priorMonth y m)
               \<and> getFullYear tz (settledAt tz fb s) = fst (priorMonth y m))
         = (\<lambda>s. getFullYear tz (settledAt tz fb s) = fst (priorMonth y m)
               \<and> getMonth tz (settledAt tz fb s) = snd (priorMonth y m))"
    by auto
  show ?thesis
    unfolding legacyPreviousDue_def n option.case c Let_def g e priorMonthBalance_def
    by (simp add: carriedBalance_balanceOver)
qed

lemma instant_day:
  "(k * msPerDay \<le> a) = (k \<le> a div msPerDay)" "(a < k * msPerDay) = (a div msPerDay < k)"
proof -
  have b: "msPerDay * (a div msPerDay) \<le> a" "a < msPerDay * (a div msPerDay) + msPerDay"
    using div_bounds [of msPerDay a] by (simp_all add: msPerDay_def)
  define q where "q = a div msPerDay"
  have q: "86400000 * q \<le> a" "a < 86400000 * q + 86400000"
    using b by (simp_all add: q_def msPerDay_def)
  show "(k * msPerDay \<le> a) = (k \<le> a div msPerDay)"
    unfolding q_def [symmetric] using q by (auto simp: msPerDay_def)
  show "(a < k * msPerDay) = (a div msPerDay < k)"
    unfolding q_def [symmetric] using q by (auto simp: msPerDay_def)
qed

lemma RESET_DATE_day: "RESET_DATE = cutoverDay * msPerDay"
  by (simp add: RESET_DATE_def cutoverDay_def msPerDay_def)

lemma resetPreviousDue_eq:
  "resetPreviousDue 0 fb ts ss (Some (U * msPerDay))
     = windowBalance 0 fb notFullRefund ts ss cutoverDay U"
  by (simp add: resetPreviousDue_def windowBalance_def Let_def carriedBalance_balanceOver
      RESET_DATE_day instant_day localDay_def)

lemma beforeReset_day: "beforeReset (Some (D * msPerDay)) = (D < cutoverDay)"
  by (simp add: beforeReset_def RESET_DATE_day msPerDay_def)



lemma getters_midnight:
  "getFullYear tz (D * msPerDay - tz) = YearFromDay D"
  "getMonth tz (D * msPerDay - tz) = MonthFromDay D"
  "getDate tz (D * msPerDay - tz) = DateFromDay D"
  by (simp_all add: getFullYear_def getMonth_def getDate_def localDay_day)

lemma DateUTC_civil:
  assumes "1900 < YearFromDay D" "YearFromDay D \<le> 9999"
  shows "DateUTC (YearFromDay D) (MonthFromDay D) (DateFromDay D) = Some (D * msPerDay)"
  using TimeClip_utc [OF day_range [OF assms]] assms(1)
  by (simp add: DateUTC_def fullYear_id civil_inverse)

lemma DateUTC_first:
  assumes "0 \<le> m" "m < 12" "1900 < y" "y \<le> 9999"
  shows "DateUTC y m 1 = Some (MakeDay y m 1 * msPerDay)"
  using TimeClip_utc [OF MakeDay_range [OF assms(1,2) order_refl daysInMonth_ge assms(3,4)]] assms(3)
  by (simp add: DateUTC_def fullYear_id)

lemma previousDueReport_cases:
  assumes "1900 < YearFromDay D" "YearFromDay D \<le> 9999"
  shows "previousDueReport tz fb ts ss (D * msPerDay - tz) =
        (if D < cutoverDay
         then legacyPreviousDue tz fb ts ss (YearFromDay D) (MonthFromDay D)
         else resetPreviousDue tz fb ts ss (Some (D * msPerDay - tz)))"
  by (simp add: previousDueReport_def getters_midnight DateUTC_civil [OF assms]
      beforeReset_day Let_def)

lemma previousDueDashboard_cases:
  assumes "1900 < YearFromDay D" "YearFromDay D \<le> 9999" "localDay tz now = D"
  shows "previousDueDashboard tz fb ts ss now =
        (if MakeDay (YearFromDay D) (MonthFromDay D) 1 < cutoverDay
         then legacyPreviousDue tz fb ts ss (YearFromDay D) (MonthFromDay D)
         else resetPreviousDue tz fb ts ss
                (Some (MakeDay (YearFromDay D) (MonthFromDay D) 1 * msPerDay)))"
proof -
  have m: "0 \<le> MonthFromDay D" "MonthFromDay D < 12"
    using MonthFromDay_range [of D] by simp_all
  show ?thesis
    using assms(3)
    by (simp add: previousDueDashboard_def getFullYear_def getMonth_def
        DateUTC_first [OF m assms(1,2)] beforeReset_day Let_def)
qed

lemma sample_dates:
  "parseSheetDate 0 (lenientDateParse 0) ''11/15/2025'' = 1763164800000"
  "parseSheetDate 0 (lenientDateParse 0) ''11/16/2025'' = 1763251200000"
  "parseSheetDate 0 (lenientDateParse 0) ''10/10/2025'' = 1760054400000"
  "parseSheetDate 0 (lenientDateParse 0) ''09/05/2025'' = 1757030400000"
  "parseSheetDate 0 (lenientDateParse 0) ''20-Nov-2025'' = 1763596800000"
  "parseSheetDate 0 (lenientDateParse 0) ''20-Oct-2025'' = 1760918400000"
  by (simp_all add: parseSheetDate_def validatedDate_def newDate_def TimeClip_def fullYear_def
      getFullYear_def getMonth_def getDate_def localDay_def msPerDay_def
      str_ev cal_ev)

lemma sample_dates_mmt:
  "getFullYear 23400000 (parseSheetDate 23400000 (lenientDateParse 23400000) ''11/15/2025'') = 2025"
  "getMonth 23400000 (parseSheetDate 23400000 (lenientDateParse 23400000) ''11/15/2025'') = 10"
  "getFullYear 23400000 (parseSheetDate 23400000 (lenientDateParse 23400000) ''11/16/2025'') = 2025"
  "getMonth 23400000 (parseSheetDate 23400000 (lenientDateParse 23400000) ''11/16/2025'') = 10"
  "getFullYear 23400000 (parseSheetDate 23400000 (lenientDateParse 23400000) ''10/10/2025'') = 2025"
  "getMonth 23400000 (parseSheetDate 23400000 (lenientDateParse 23400000) ''10/10/2025'') = 9"
  "getFullYear 23400000 (parseSheetDate 23400000 (lenientDateParse 23400000) ''09/05/2025'') = 2025"
  "getMonth 23400000 (parseSheetDate 23400000 (lenientDateParse 23400000) ''09/05/2025'') = 8"
  "getFullYear 23400000 (parseSheetDate 23400000 (lenientDateParse 23400000) ''20-Nov-2025'') = 2025"
  "getMonth 23400000 (parseSheetDate 23400000 (lenientDateParse 23400000) ''20-Nov-2025'') = 10"
  "getFullYear 23400000 (parseSheetDate 23400000 (lenientDateParse 23400000) ''20-Oct-2025'') = 2025"
  "getMonth 23400000 (parseSheetDate 23400000 (lenientDateParse 23400000) ''20-Oct-2025'') = 9"
  by (simp_all add: parseSheetDate_def validatedDate_def newDate_def TimeClip_def fullYear_def
      getFullYear_def getMonth_def getDate_def localDay_def msPerDay_def
      str_ev cal_ev)

lemmas sample_ev = sampleTickets_def sampleSettlements_def emptyTicket_def emptySettlement_def
  issuedAt_def settledAt_def sample_dates notFullRefund_def anyTicket_def activeTicket_def
  cutoverDay_def localDay_def msPerDay_def toLowerCase_def toLowerChar_def balanceOver_def

lemma sample_window:
  "windowBalance 0 (lenientDateParse 0) notFullRefund sampleTickets sampleSettlements
     cutoverDay 20423 = 15000"
  "windowBalance 0 (lenientDateParse 0) anyTicket sampleTickets sampleSettlements
     cutoverDay 20423 = 20000"
  "windowBalance 0 (lenientDateParse 0) activeTicket sampleTickets sampleSettlements
     cutoverDay 20423 = - 4000"
  by (simp_all add: windowBalance_def sample_ev)

lemma sample_prior:
  "priorMonthBalance 23400000 (lenientDateParse 23400000) notFullRefund sampleTickets
     sampleSettlements 2025 9 = 28000"
  by (simp add: priorMonthBalance_def priorMonth_def sampleTickets_def sampleSettlements_def
      emptyTicket_def emptySettlement_def issuedAt_def settledAt_def sample_dates_mmt
      notFullRefund_def balanceOver_def toLowerCase_def toLowerChar_def)

lemma sample_days:
  "YearFromDay 20423 = 2025" "MonthFromDay 20423 = 11" "MakeDay 2025 11 1 = 20423"
  "YearFromDay 20362 = 2025" "MonthFromDay 20362 = 9" "localDay 0 1764547200005 = 20423"
  "cutoverDay \<le> 20423" "\<not> 20423 < cutoverDay" "20362 < cutoverDay"
  by (simp_all add: cal_ev localDay_def msPerDay_def cutoverDay_def)

text \<open>
  C1. The previous balance is computed by one of two algorithms, chosen by comparing the
  calendar day \<open>D\<close> of the period start with 1 November 2025 (periods that start in the
  years 1901 to 9999).  Before that day it is the balance of the calendar month before
  the period start, and of that month only.  From that day on it is, where local time is
  UTC, the balance over the days from 1 November 2025 up to, and not including, the
  period start.  In both, the tickets counted are those whose remarks do not contain
  \<open>full refund\<close>.  The report takes the start of its date range as the period start, the
  dashboard the first day of the current month.
\<close>

theorem previousDue_two_modes:
  assumes "\<bar>tz\<bar> < msPerDay" "1900 < YearFromDay D" "YearFromDay D \<le> 9999"
  shows "(D < cutoverDay \<longrightarrow>
            previousDueReport tz fb ts ss (D * msPerDay - tz)
              = priorMonthBalance tz fb notFullRefund ts ss (YearFromDay D) (MonthFromDay D))
       \<and> (cutoverDay \<le> D \<and> tz = 0 \<longrightarrow>
            previousDueReport tz fb ts ss (D * msPerDay - tz)
              = windowBalance tz fb notFullRefund ts ss cutoverDay D)
       \<and> (localDay tz now = D \<longrightarrow>
            (MakeDay (YearFromDay D) (MonthFromDay D) 1 < cutoverDay \<longrightarrow>
               previousDueDashboard tz fb ts ss now
                 = priorMonthBalance tz fb notFullRefund ts ss (YearFromDay D) (MonthFromDay D))
            \<and> (cutoverDay \<le> MakeDay (YearFromDay D) (MonthFromDay D) 1 \<and> tz = 0 \<longrightarrow>
               previousDueDashboard tz fb ts ss now
                 = windowBalance tz fb notFullRefund ts ss cutoverDay
                     (MakeDay (YearFromDay D) (MonthFromDay D) 1)))"
proof -
  let ?y = "YearFromDay D" and ?m = "MonthFromDay D"
  have m: "0 \<le> ?m" "?m < 12" using MonthFromDay_range [of D] by simp_all
  have leg: "legacyPreviousDue tz fb ts ss ?y ?m = priorMonthBalance tz fb notFullRefund ts ss ?y ?m"
    using legacyPreviousDue_eq [OF assms(1) m assms(2,3)] .
  show ?thesis
    using previousDueReport_cases [OF assms(2,3), of tz fb ts ss]
      previousDueDashboard_cases [OF assms(2,3), of tz now fb ts ss]
      leg resetPreviousDue_eq [of fb ts ss]
    by auto
qed

theorem previousDue_two_modes_witness:
  "\<bar>0\<bar> < msPerDay \<and> 1900 < YearFromDay 20423 \<and> YearFromDay 20423 \<le> 9999
   \<and> cutoverDay \<le> 20423 \<and> localDay 0 1764547200005 = 20423
   \<and> cutoverDay \<le> MakeDay (YearFromDay 20423) (MonthFromDay 20423) 1
   \<and> previousDueReport 0 (lenientDateParse 0) sampleTickets sampleSettlements (20423 * msPerDay - 0)
       = 15000
   \<and> previousDueDashboard 0 (lenientDateParse 0) sampleTickets sampleSettlements 1764547200005
       = 15000
   \<and> \<bar>23400000\<bar> < msPerDay \<and> 1900 < YearFromDay 20362 \<and> YearFromDay 20362 \<le> 9999
   \<and> 20362 < cutoverDay
   \<and> previousDueReport 23400000 (lenientDateParse 23400000) sampleTickets sampleSettlements
         (20362 * msPerDay - 23400000) = 28000"
  using previousDue_two_modes [of 0 20423 "lenientDateParse 0" sampleTickets sampleSettlements
      1764547200005]
    previousDue_two_modes [of 23400000 20362 "lenientDateParse 23400000" sampleTickets sampleSettlements 0]
  by (simp add: sample_days sample_window sample_prior msPerDay_def)

text \<open>
  The balance carried into December 2025 by the example rows is 15000.  Taken over all
  tickets since the reset it would be 20000, and over the active tickets \<open>- 4000\<close>: the
  fully refunded ticket is left out although it still carries a date-change fee, and the
  cancelled ticket is counted.
\<close>

theorem previousDue_all_tickets_counterexample:
  "previousDueReport 0 (lenientDateParse 0) sampleTickets sampleSettlements (20423 * msPerDay)
     = 15000
   \<and> windowBalance 0 (lenientDateParse 0) anyTicket sampleTickets sampleSettlements cutoverDay 20423
     = 20000
   \<and> windowBalance 0 (lenientDateParse 0) activeTicket sampleTickets sampleSettlements cutoverDay
       20423 = - 4000"
  using previousDueReport_cases [of 20423 0 "lenientDateParse 0" sampleTickets sampleSettlements]
    resetPreviousDue_eq [of "lenientDateParse 0" sampleTickets sampleSettlements 20423]
  by (simp add: sample_days sample_window)


lemma sum_insort_key:
  "sum_list (map f (insort_key k x xs)) = f x + sum_list (map f xs)" for f :: "'a \<Rightarrow> int"
  by (induction xs) simp_all

lemma sum_sort_key:
  "sum_list (map f (sort_key k xs)) = sum_list (map f xs)" for f :: "'a \<Rightarrow> int"
  by (induction xs) (simp_all add: sum_insort_key)

lemma sort_key_Nil_iff: "sort_key k xs = [] \<longleftrightarrow> xs = []"
  by (metis length_0_conv length_sort)

lemma mergeStep_sum:
  "sum_list (map (\<lambda>kv. mr_net_amount (snd kv)) (mergeStep acc t))
     = sum_list (map (\<lambda>kv. mr_net_amount (snd kv)) acc) + net_amount t"
  "sum_list (map (\<lambda>kv. mr_date_change (snd kv)) (mergeStep acc t))
     = sum_list (map (\<lambda>kv. mr_date_change (snd kv)) acc) + date_change t"
  by (auto simp: mergeStep_def Let_def sum_upsert split: option.splits)

lemma mergedData_sum:
  "sum_list (map (\<lambda>kv. mr_net_amount (snd kv)) (foldl mergeStep acc ts))
     = sum_list (map (\<lambda>kv. mr_net_amount (snd kv)) acc) + sum_list (map net_amount ts)"
  "sum_list (map (\<lambda>kv. mr_date_change (snd kv)) (foldl mergeStep acc ts))
     = sum_list (map (\<lambda>kv. mr_date_change (snd kv)) acc) + sum_list (map date_change ts)"
  by (induction ts arbitrary: acc) (simp_all add: mergeStep_sum)

lemma revenueOver_split:
  "revenueOver ts = sum_list (map net_amount ts) + sum_list (map date_change ts)"
  by (simp add: revenueOver_def sum_list_addf)

lemma revenueOver_sort_key: "revenueOver (sort_key k ts) = revenueOver ts"
  by (simp add: revenueOver_def sum_sort_key)

lemma report_totals:
  "(if isMerged then foldl (\<lambda>sum g. sum + mr_net_amount g) 0 (map snd (mergedData xs))
    else foldl (\<lambda>sum t. sum + net_amount t) 0 xs)
   + (if isMerged then foldl (\<lambda>sum g. sum + mr_date_change g) 0 (map snd (mergedData xs))
      else foldl (\<lambda>sum t. sum + date_change t) 0 xs)
   = revenueOver xs"
  using mergedData_sum [of "[]" xs]
  by (simp add: foldl_plus revenueOver_split mergedData_def comp_def)

lemma reportRevenue_eq:
  assumes "setHours tz (parseSheetDate tz fb a) 0 0 0 0 = Some s"
    and "setHours tz (parseSheetDate tz fb b) 23 59 59 999 = Some e"
  shows "reportRevenue tz fb ts ss isMerged a b
        = (if filter (issuedBetween tz fb s e) ts = [] then None
           else Some (revenueOver (filter (issuedBetween tz fb s e) ts)))"
proof -
  let ?in = "filter (issuedBetween tz fb s e) ts"
  have f: "filter (\<lambda>t. s \<le> issuedAt tz fb t \<and> issuedAt tz fb t \<le> e) ts = ?in"
    by (simp add: issuedBetween_def [abs_def])
  show ?thesis
  proof (cases "?in = []")
    case True
    then show ?thesis
      using assms by (simp add: reportRevenue_def exportToPdf_def f)
  next
    case False
    have "reportRevenue tz fb ts ss isMerged a b
          = Some ((if isMerged
                   then foldl (\<lambda>sum g. sum + mr_net_amount g) 0
                          (map snd (mergedData (sort_key (issuedAt tz fb) ?in)))
                   else foldl (\<lambda>sum t. sum + net_amount t) 0 (sort_key (issuedAt tz fb) ?in))
                  + (if isMerged
                     then foldl (\<lambda>sum g. sum + mr_date_change g) 0
                            (map snd (mergedData (sort_key (issuedAt tz fb) ?in)))
                     else foldl (\<lambda>sum t. sum + date_change t) 0
                            (sort_key (issuedAt tz fb) ?in)))"
      using assms False by (simp add: reportRevenue_def exportToPdf_def f Let_def)
    then show ?thesis
      using False by (simp only: report_totals revenueOver_sort_key if_False)
  qed
qed

lemma dashboardRevenue_eq:
  "revenueThisMonth (updateSettlementDashboard tz fb ts ss now)
     = revenueOver (filter (\<lambda>t. issuedInMonthOf tz fb now t \<and> notFullRefund t) ts)"
proof -
  have "(\<lambda>t. getMonth tz (issuedAt tz fb t) = getMonth tz now
             \<and> getFullYear tz (issuedAt tz fb t) = getFullYear tz now \<and> notFullRefund t)
        = (\<lambda>t. issuedInMonthOf tz fb now t \<and> notFullRefund t)"
    by (auto simp: issuedInMonthOf_def)
  then show ?thesis
    by (simp add: updateSettlementDashboard_def Let_def foldl_plus2 revenueOver_def)
qed

lemma sample_period:
  "setHours 0 (parseSheetDate 0 (lenientDateParse 0) ''11/01/2025'') 0 0 0 0 = Some 1761955200000"
  "setHours 0 (parseSheetDate 0 (lenientDateParse 0) ''11/30/2025'') 23 59 59 999
     = Some 1764547199999"
  by (simp_all add: parseSheetDate_def validatedDate_def newDate_def TimeClip_def fullYear_def
      getFullYear_def getMonth_def getDate_def localDay_def msPerDay_def
      setHours_def str_ev cal_ev)

lemma sample_months:
  "getFullYear 0 1763600000000 = 2025" "getMonth 0 1763600000000 = 10"
  "getFullYear 0 1763164800000 = 2025" "getMonth 0 1763164800000 = 10"
  "getFullYear 0 1763251200000 = 2025" "getMonth 0 1763251200000 = 10"
  "getFullYear 0 1760054400000 = 2025" "getMonth 0 1760054400000 = 9"
  "getFullYear 0 1757030400000 = 2025" "getMonth 0 1757030400000 = 8"
  by (simp_all add: getFullYear_def getMonth_def localDay_def msPerDay_def cal_ev)

lemma sample_revenue:
  "filter (issuedBetween 0 (lenientDateParse 0) 1761955200000 1764547199999) sampleTickets \<noteq> []"
  "revenueOver (filter (issuedBetween 0 (lenientDateParse 0) 1761955200000 1764547199999)
     sampleTickets) = 25000"
  "revenueOver (filter (\<lambda>t. issuedInMonthOf 0 (lenientDateParse 0) 1763600000000 t \<and> notFullRefund t)
     sampleTickets) = 20000"
  "claimedRevenue (issuedBetween 0 (lenientDateParse 0) 1761955200000 1764547199999) sampleTickets
     = 0"
  "claimedRevenue (issuedInMonthOf 0 (lenientDateParse 0) 1763600000000) sampleTickets = 0"
  by (simp_all add: revenueOver_def claimedRevenue_def issuedBetween_def issuedInMonthOf_def
      sampleTickets_def emptyTicket_def issuedAt_def sample_dates sample_months
      notFullRefund_def activeTicket_def toLowerCase_def toLowerChar_def)

text \<open>
  C8. The revenue of a report is the sum of \<open>net_amount + date_change\<close> over every ticket
  issued from the start to the end of the range, whatever its remarks and in either
  layout; the export stops when there is no such ticket.  The revenue of the dashboard is
  that sum over the tickets issued in the current month whose remarks do not contain
  \<open>full refund\<close>.
\<close>

theorem revenue_figure:
  "(setHours tz (parseSheetDate tz fb a) 0 0 0 0 = Some s
    \<and> setHours tz (parseSheetDate tz fb b) 23 59 59 999 = Some e \<longrightarrow>
      reportRevenue tz fb ts ss isMerged a b
        = (if filter (issuedBetween tz fb s e) ts = [] then None
           else Some (revenueOver (filter (issuedBetween tz fb s e) ts))))
   \<and> revenueThisMonth (updateSettlementDashboard tz fb ts ss now)
        = revenueOver (filter (\<lambda>t. issuedInMonthOf tz fb now t \<and> notFullRefund t) ts)"
  using reportRevenue_eq [of tz fb a s b e ts ss isMerged] dashboardRevenue_eq [of tz fb ts ss now]
  by simp

theorem revenue_figure_witness:
  "setHours 0 (parseSheetDate 0 (lenientDateParse 0) ''11/01/2025'') 0 0 0 0 = Some 1761955200000
   \<and> setHours 0 (parseSheetDate 0 (lenientDateParse 0) ''11/30/2025'') 23 59 59 999
       = Some 1764547199999
   \<and> reportRevenue 0 (lenientDateParse 0) sampleTickets sampleSettlements True
       ''11/01/2025'' ''11/30/2025'' = Some 25000
   \<and> revenueThisMonth (updateSettlementDashboard 0 (lenientDateParse 0) sampleTickets
       sampleSettlements 1763600000000) = 20000"
  using revenue_figure [of 0 "lenientDateParse 0" "''11/01/2025''" 1761955200000 "''11/30/2025''"
      1764547199999 sampleTickets sampleSettlements True 1763600000000]
  by (simp add: sample_period sample_revenue)

text \<open>
  For November 2025 the example rows give a report revenue of 25000 and a dashboard
  revenue of 20000, while the active tickets of the month, those without \<open>cancel\<close> or
  \<open>refund\<close> in the remarks, have none.
\<close>

theorem revenue_cancelled_counterexample:
  "reportRevenue 0 (lenientDateParse 0) sampleTickets sampleSettlements False
     ''11/01/2025'' ''11/30/2025'' = Some 25000
   \<and> claimedRevenue (issuedBetween 0 (lenientDateParse 0) 1761955200000 1764547199999)
       sampleTickets = 0
   \<and> revenueThisMonth (updateSettlementDashboard 0 (lenientDateParse 0) sampleTickets
       sampleSettlements 1763600000000) = 20000
   \<and> claimedRevenue (issuedInMonthOf 0 (lenientDateParse 0) 1763600000000) sampleTickets = 0"
  using reportRevenue_eq [OF sample_period, of sampleTickets sampleSettlements False]
    dashboardRevenue_eq [of 0 "lenientDateParse 0" sampleTickets sampleSettlements 1763600000000]
  by (simp add: sample_revenue)


subsection \<open>Updating the tickets of a PNR\<close>
















end
